theory Spec2Isabelle
  imports Main "HOL-Library.Multiset"
begin

section \<open>Time values, time zones and the Date operations the engine relies on\<close>

text \<open>
  A \<open>Date\<close> of the source holds a time value: a count of milliseconds since the start
  of 1970 in universal time, of magnitude at most \<open>maxTimeValue\<close>, or \<open>NaN\<close>, which
  makes it an Invalid Date. The operations below follow the ECMAScript definitions of the
  methods the engine calls.
\<close>

definition msPerDay :: int where
  "msPerDay = 1000 * 60 * 60 * 24"

definition msPerHour :: int where
  "msPerHour = 1000 * 60 * 60"

definition maxTimeValue :: int where
  "maxTimeValue = 8640000000000000"

datatype Date = InvalidDate | TimeValue int

definition TimeClip :: "int \<Rightarrow> Date" where
  "TimeClip t = (if \<bar>t\<bar> > maxTimeValue then InvalidDate else TimeValue t)"

text \<open>The day number of a time value, and its day of the week (0 is Sunday); day 0 is
  Thursday 1970-01-01.\<close>

definition Day :: "int \<Rightarrow> int" where
  "Day t = t div msPerDay"

definition WeekDay :: "int \<Rightarrow> int" where
  "WeekDay t = (Day t + 4) mod 7"

text \<open>
  A time zone gives the offset of local time from universal time: the first function at
  a time value, the second at a local time (\<open>LocalTZA(t, true)\<close> and
  \<open>LocalTZA(t, false)\<close> of ECMAScript). Daylight saving makes the offsets change, so
  that a local day may be 23 or 25 hours long. The zones of the model are those in which
  no local calendar day is skipped or comes twice: a local time that is turned into a
  time value and back stays on its calendar day, and the local calendar day never goes
  backwards as time goes on.
\<close>

definition keepsDays :: "(int \<Rightarrow> int) \<times> (int \<Rightarrow> int) \<Rightarrow> bool" where
  "keepsDays z \<longleftrightarrow>
     (\<forall>x. Day ((x - snd z x) + fst z (x - snd z x)) = Day x) \<and>
     (\<forall>t t'. t \<le> t' \<longrightarrow> Day (t + fst z t) \<le> Day (t' + fst z t'))"

typedef zone = "{z :: (int \<Rightarrow> int) \<times> (int \<Rightarrow> int). keepsDays z}"
proof
  show "(\<lambda>t. 0, \<lambda>t. 0) \<in> {z :: (int \<Rightarrow> int) \<times> (int \<Rightarrow> int). keepsDays z}"
    by (simp add: keepsDays_def Day_def msPerDay_def zdiv_mono1)
qed

setup_lifting type_definition_zone

lift_definition LocalTZA :: "zone \<Rightarrow> int \<Rightarrow> bool \<Rightarrow> int"
  is "\<lambda>z t isUTC. if isUTC then fst z t else snd z t" .

definition LocalTime :: "zone \<Rightarrow> int \<Rightarrow> int" where
  "LocalTime tz t = t + LocalTZA tz t True"

definition UTC :: "zone \<Rightarrow> int \<Rightarrow> int" where
  "UTC tz t = t - LocalTZA tz t False"

text \<open>The zone of universal time, and a zone with the daylight saving of the eastern
  United States in 2025: five hours behind universal time, four hours behind from
  2025-03-09 07:00 to 2025-11-02 06:00 universal time. A local time that the change of
  March skips or the change of November repeats is read with the offset before the
  change.\<close>

lift_definition utcZone :: zone is "(\<lambda>t. 0, \<lambda>t. 0)"
  by (simp add: keepsDays_def Day_def msPerDay_def zdiv_mono1)

definition easternOffsets :: "(int \<Rightarrow> int) \<times> (int \<Rightarrow> int)" where
  "easternOffsets =
     (\<lambda>t. if 1741503600000 \<le> t \<and> t < 1762063200000 then - 14400000 else - 18000000,
      \<lambda>x. if 1741489200000 \<le> x \<and> x < 1762048800000 then - 14400000 else - 18000000)"


lemma msPerDay_pos: "0 < msPerDay"
  by (simp add: msPerDay_def)

lemma Day_ge: "D * msPerDay \<le> t \<Longrightarrow> D \<le> Day t"
proof -
  assume "D * msPerDay \<le> t"
  then have "(D * msPerDay) div msPerDay \<le> t div msPerDay"
    using msPerDay_pos by (rule zdiv_mono1)
  then show ?thesis using msPerDay_pos by (simp add: Day_def)
qed

lemma Day_le: "t < (D + 1) * msPerDay \<Longrightarrow> Day t \<le> D"
proof -
  assume a: "t < (D + 1) * msPerDay"
  have "t = Day t * msPerDay + t mod msPerDay" by (simp add: Day_def)
  moreover have "0 \<le> t mod msPerDay" using msPerDay_pos by simp
  ultimately have "Day t * msPerDay \<le> t" by linarith
  with a have "Day t * msPerDay < (D + 1) * msPerDay" by simp
  then have "Day t < D + 1" using msPerDay_pos by (simp add: mult_less_cancel_right)
  then show ?thesis by simp
qed

lemma Day_mono: "t \<le> t' \<Longrightarrow> Day t \<le> Day t'"
  unfolding Day_def using msPerDay_pos by (simp add: zdiv_mono1)

lemma Day_eqI: "D * msPerDay \<le> t \<Longrightarrow> t < (D + 1) * msPerDay \<Longrightarrow> Day t = D"
  using Day_ge [of D t] Day_le [of t D] by simp

lemma Day_add_days: "Day (t + k * msPerDay) = Day t + k"
  using msPerDay_pos by (simp add: Day_def)

lemma keepsDays_eastern: "keepsDays easternOffsets"
  unfolding keepsDays_def
proof (intro conjI allI impI)
  fix x :: int
  let ?f = "fst easternOffsets" and ?g = "snd easternOffsets"
  consider "x < 1741485600000" | "1741485600000 \<le> x \<and> x < 1741489200000"
    | "1741489200000 \<le> x \<and> x < 1762048800000" | "1762048800000 \<le> x"
    by linarith
  then show "Day ((x - ?g x) + ?f (x - ?g x)) = Day x"
  proof cases
    case 1
    then have "(x - ?g x) + ?f (x - ?g x) = x" by (simp add: easternOffsets_def)
    then show ?thesis by simp
  next
    case 2
    then have eq: "(x - ?g x) + ?f (x - ?g x) = x + 3600000" by (simp add: easternOffsets_def)
    have "Day x = 20156" using 2 by (intro Day_eqI) (simp_all add: msPerDay_def)
    moreover have "Day (x + 3600000) = 20156"
      using 2 by (intro Day_eqI) (simp_all add: msPerDay_def)
    ultimately show ?thesis by (simp only: eq)
  next
    case 3
    then have "(x - ?g x) + ?f (x - ?g x) = x" by (simp add: easternOffsets_def)
    then show ?thesis by simp
  next
    case 4
    then have "(x - ?g x) + ?f (x - ?g x) = x" by (simp add: easternOffsets_def)
    then show ?thesis by simp
  qed
next
  fix t t' :: int
  let ?f = "fst easternOffsets"
  assume le: "t \<le> t'"
  show "Day (t + ?f t) \<le> Day (t' + ?f t')"
  proof (cases "?f t \<le> ?f t'")
    case True
    with le have "t + ?f t \<le> t' + ?f t'" by simp
    then show ?thesis by (rule Day_mono)
  next
    case False
    then have a: "1741503600000 \<le> t \<and> t < 1762063200000" and b: "1762063200000 \<le> t'"
      using le by (auto simp: easternOffsets_def split: if_splits)
    have "t + ?f t = t - 14400000" using a by (simp add: easternOffsets_def)
    then have "Day (t + ?f t) \<le> 20394"
      using a by (intro Day_le) (simp add: msPerDay_def)
    moreover have "t' + ?f t' = t' - 18000000" using b by (simp add: easternOffsets_def)
    then have "20394 \<le> Day (t' + ?f t')"
      using b by (intro Day_ge) (simp add: msPerDay_def)
    ultimately show ?thesis by simp
  qed
qed

lift_definition easternZone :: zone is easternOffsets
  by (rule keepsDays_eastern)


lemma zone_keeps_day: "Day (LocalTime tz (UTC tz x)) = Day x"
  using Rep_zone [of tz] by (simp add: keepsDays_def LocalTime_def UTC_def LocalTZA.rep_eq)

lemma zone_day_mono: "t \<le> t' \<Longrightarrow> Day (LocalTime tz t) \<le> Day (LocalTime tz t')"
  using Rep_zone [of tz] by (simp add: keepsDays_def LocalTime_def LocalTZA.rep_eq)

text \<open>Numbers are integers or \<open>NaN\<close>, which is \<open>None\<close>. Every comparison with
  \<open>NaN\<close> is false, except \<open>!==\<close>, which is true.\<close>

type_synonym number = "int option"

definition numSub :: "number \<Rightarrow> number \<Rightarrow> number" where
  "numSub a b = (case (a, b) of (Some x, Some y) \<Rightarrow> Some (x - y) | _ \<Rightarrow> None)"

definition numAbs :: "number \<Rightarrow> number" where
  "numAbs a = map_option abs a"

definition numNe :: "number \<Rightarrow> number \<Rightarrow> bool" where
  "numNe a b = (case (a, b) of (Some x, Some y) \<Rightarrow> x \<noteq> y | _ \<Rightarrow> True)"

definition numGt :: "number \<Rightarrow> number \<Rightarrow> bool" where
  "numGt a b = (case (a, b) of (Some x, Some y) \<Rightarrow> x > y | _ \<Rightarrow> False)"

definition getTime :: "Date \<Rightarrow> number" where
  "getTime d = (case d of InvalidDate \<Rightarrow> None | TimeValue t \<Rightarrow> Some t)"

text \<open>The comparisons \<open>a <= b\<close>, \<open>a < b\<close> and \<open>a > b\<close> of two dates compare their
  time values, and \<open>a.getTime() === b.getTime()\<close> tests them for equality.\<close>

definition dateLE :: "Date \<Rightarrow> Date \<Rightarrow> bool" where
  "dateLE a b = (case (a, b) of (TimeValue x, TimeValue y) \<Rightarrow> x \<le> y | _ \<Rightarrow> False)"

definition dateLT :: "Date \<Rightarrow> Date \<Rightarrow> bool" where
  "dateLT a b = (case (a, b) of (TimeValue x, TimeValue y) \<Rightarrow> x < y | _ \<Rightarrow> False)"

definition dateGT :: "Date \<Rightarrow> Date \<Rightarrow> bool" where
  "dateGT a b = dateLT b a"

definition sameTime :: "Date \<Rightarrow> Date \<Rightarrow> bool" where
  "sameTime a b = (case (a, b) of (TimeValue x, TimeValue y) \<Rightarrow> x = y | _ \<Rightarrow> False)"

text \<open>\<open>getDay\<close>: the day of the week of the local time.\<close>

definition getDay :: "zone \<Rightarrow> Date \<Rightarrow> number" where
  "getDay tz d =
     (case d of InvalidDate \<Rightarrow> None | TimeValue t \<Rightarrow> Some (WeekDay (LocalTime tz t)))"

text \<open>\<open>d.setDate(d.getDate() + k)\<close>: the local time moves by \<open>k\<close> calendar days and
  keeps its time of day; the result is read as a local time again and clipped.\<close>

definition addDays :: "zone \<Rightarrow> Date \<Rightarrow> int \<Rightarrow> Date" where
  "addDays tz d k =
     (case d of
        InvalidDate \<Rightarrow> InvalidDate
      | TimeValue t \<Rightarrow> TimeClip (UTC tz (LocalTime tz t + k * msPerDay)))"

text \<open>\<open>d.setHours(0, 0, 0, 0)\<close>: local midnight of the same local calendar day.\<close>

definition setHoursZero :: "zone \<Rightarrow> Date \<Rightarrow> Date" where
  "setHoursZero tz d =
     (case d of
        InvalidDate \<Rightarrow> InvalidDate
      | TimeValue t \<Rightarrow> TimeClip (UTC tz (Day (LocalTime tz t) * msPerDay)))"

text \<open>The proleptic Gregorian calendar: the day number of a civil date, and the year of a
  day number.\<close>

definition daysFromCivil :: "int \<Rightarrow> int \<Rightarrow> int \<Rightarrow> int" where
  "daysFromCivil y m d =
     (let y' = (if m \<le> 2 then y - 1 else y);
          era = y' div 400;
          yoe = y' - era * 400;
          doy = (153 * (if m > 2 then m - 3 else m + 9) + 2) div 5 + d - 1;
          doe = yoe * 365 + yoe div 4 - yoe div 100 + doy
      in era * 146097 + doe - 719468)"

definition yearFromDays :: "int \<Rightarrow> int" where
  "yearFromDays z =
     (let z' = z + 719468;
          era = z' div 146097;
          doe = z' - era * 146097;
          yoe = (doe - doe div 1460 + doe div 36524 - doe div 146096) div 365;
          doy = doe - (365 * yoe + yoe div 4 - yoe div 100);
          mp = (5 * doy + 2) div 153;
          m = (if mp < 10 then mp + 3 else mp - 9)
      in yoe + era * 400 + (if m \<le> 2 then 1 else 0))"

definition getFullYear :: "zone \<Rightarrow> Date \<Rightarrow> number" where
  "getFullYear tz d =
     (case d of
        InvalidDate \<Rightarrow> None
      | TimeValue t \<Rightarrow> Some (yearFromDays (Day (LocalTime tz t))))"

text \<open>\<open>new Date(y, m - 1, d, h)\<close>: hour \<open>h\<close> of a civil date in local time.\<close>

definition mkDate :: "zone \<Rightarrow> int \<Rightarrow> int \<Rightarrow> int \<Rightarrow> int \<Rightarrow> Date" where
  "mkDate tz y m d h = TimeClip (UTC tz (daysFromCivil y m d * msPerDay + h * msPerHour))"

text \<open>\<open>v++\<close> on a number that holds an integer: exact up to \<open>2^53\<close>; from there on
  the sum is rounded to the nearest number, to the even one of two that are equally
  near, so that the number stays where it is or moves by two.\<close>

definition increment :: "int \<Rightarrow> int" where
  "increment v =
     (let x = v + 1
      in if \<bar>x\<bar> \<le> 2 ^ 53 then x
         else if \<bar>x\<bar> < 2 ^ 54 then
           (if even x then x else if (x + 1) mod 4 = 0 then x + 1 else x - 1)
         else v)"

text \<open>The local calendar day of a time value, and a measure of how far a date is from
  the end of the range of dates, for the termination proofs.\<close>

definition localDay :: "zone \<Rightarrow> int \<Rightarrow> int" where
  "localDay tz t = Day (LocalTime tz t)"

definition remaining :: "Date \<Rightarrow> nat" where
  "remaining d = (case d of InvalidDate \<Rightarrow> 0 | TimeValue t \<Rightarrow> nat (maxTimeValue - t) + 1)"

lemma addDays_localDay:
  "addDays tz (TimeValue t) k = TimeValue t' \<Longrightarrow> localDay tz t' = localDay tz t + k"
proof -
  assume "addDays tz (TimeValue t) k = TimeValue t'"
  then have "t' = UTC tz (LocalTime tz t + k * msPerDay)"
    by (simp add: addDays_def TimeClip_def split: if_splits)
  then show ?thesis by (simp add: localDay_def zone_keeps_day Day_add_days)
qed

lemma localDay_less_imp_less: "localDay tz a < localDay tz b \<Longrightarrow> a < b"
proof (rule ccontr)
  assume l: "localDay tz a < localDay tz b" and "\<not> a < b"
  then have "b \<le> a" by simp
  then have "localDay tz b \<le> localDay tz a" unfolding localDay_def by (rule zone_day_mono)
  with l show False by simp
qed

lemma addDays_later:
  assumes "0 < k" "addDays tz (TimeValue t) k = TimeValue t'"
  shows "t < t'"
proof -
  have "localDay tz t' = localDay tz t + k" using assms(2) by (rule addDays_localDay)
  with assms(1) have "localDay tz t < localDay tz t'" by simp
  then show ?thesis by (rule localDay_less_imp_less)
qed

lemma addDays_earlier:
  assumes "k < 0" "addDays tz (TimeValue t) k = TimeValue t'"
  shows "t' < t"
proof -
  have "localDay tz t' = localDay tz t + k" using assms(2) by (rule addDays_localDay)
  with assms(1) have "localDay tz t' < localDay tz t" by simp
  then show ?thesis by (rule localDay_less_imp_less)
qed

lemma addDays_in_range: "addDays tz d k = TimeValue t' \<Longrightarrow> \<bar>t'\<bar> \<le> maxTimeValue"
  by (cases d) (simp_all add: addDays_def TimeClip_def split: if_splits)

lemma remaining_addDays:
  assumes "0 < k"
  shows "remaining (addDays tz (TimeValue t) k) < remaining (TimeValue t)"
proof (cases "addDays tz (TimeValue t) k")
  case InvalidDate
  then show ?thesis by (simp add: remaining_def)
next
  case (TimeValue t')
  have "t < t'" using assms TimeValue by (rule addDays_later)
  moreover have "t' \<le> maxTimeValue" using addDays_in_range [OF TimeValue] by simp
  ultimately show ?thesis using TimeValue by (simp add: remaining_def)
qed

lemma dateLE_remaining: "dateLE d m \<Longrightarrow> remaining (addDays tz d 1) < remaining d"
  by (cases d) (simp_all add: dateLE_def remaining_addDays)

lemma dateLT_remaining: "dateLT d m \<Longrightarrow> remaining (addDays tz d 1) < remaining d"
  by (cases d) (simp_all add: dateLT_def remaining_addDays)

section \<open>Data model\<close>

record Holiday =
  date :: Date
  name :: string

text \<open>What the holiday provider returns for one holiday (\<open>HolidaysTypes.Holiday\<close>): a
  span of time from \<open>start\<close> to \<open>end\<close>, and a name. The fields carry the prefix
  \<open>h_\<close>, since \<open>end\<close> is a keyword. Where a parameter of the source has the name
  of a field of one of the records below, the model shortens it (\<open>startDt\<close>,
  \<open>endDt\<close>, \<open>daysCnt\<close>, \<open>maxVacDays\<close>). The numbers of vacation days are
  the integers that \<open>parseInt\<close> gives; a field that holds \<open>NaN\<close> is not modelled.\<close>

record ProviderHoliday =
  h_start :: Date
  h_end :: Date
  h_name :: string

record FormData =
  workCountry :: string
  workState :: string
  minVacationDays :: int
  maxVacationDays :: int
  startDate :: Date
  endDate :: Date

record VacationPeriod =
  startDate :: Date
  endDate :: Date
  usedStartDate :: Date
  usedEndDate :: Date
  daysCount :: int

datatype error = NoValidPeriod

section \<open>Holiday list and day classification\<close>

text \<open>The inner loop of \<open>holidays\<close>: one record per step of a calendar day from the
  start of the span, as long as the step lies before the end of the span.\<close>

function spanDays :: "zone \<Rightarrow> ProviderHoliday \<Rightarrow> Date \<Rightarrow> Holiday list \<Rightarrow> Holiday list" where
  "spanDays tz h currentDate holidayList =
     (if dateLT currentDate (h_end h)
      then spanDays tz h (addDays tz currentDate 1)
             (holidayList @ [\<lparr>date = currentDate, name = h_name h\<rparr>])
      else holidayList)"
  by pat_completeness auto
termination
  by (relation "measure (\<lambda>(tz, h, c, l). remaining c)") (simp_all add: dateLT_remaining)

declare spanDays.simps [simp del]

text \<open>\<open>yearHolidays.forEach\<close>.\<close>

fun forEachHoliday :: "zone \<Rightarrow> ProviderHoliday list \<Rightarrow> Holiday list \<Rightarrow> Holiday list" where
  "forEachHoliday tz [] holidayList = holidayList"
| "forEachHoliday tz (h # rest) holidayList =
     forEachHoliday tz rest (spanDays tz h (h_start h) holidayList)"

text \<open>The loop over the years. The provider, initialised for a country and a state, is the
  parameter \<open>getHolidays\<close>.\<close>

function yearLoop ::
  "zone \<Rightarrow> (int \<Rightarrow> ProviderHoliday list) \<Rightarrow> int \<Rightarrow> int \<Rightarrow> Holiday list \<Rightarrow> Holiday list"
  where
  "yearLoop tz getHolidays year endYear holidayList =
     (if year \<le> endYear
      then yearLoop tz getHolidays (year + 1) endYear
             (forEachHoliday tz (getHolidays year) holidayList)
      else holidayList)"
  by pat_completeness auto
termination
  by (relation "measure (\<lambda>(tz, g, y, e, l). nat (e + 1 - y))") simp_all

declare yearLoop.simps [simp del]

text \<open>\<open>holidays\<close> takes the provider of the whole library: from a country, a state and
  a year to the spans of that year.\<close>

definition holidays ::
  "zone \<Rightarrow> (string \<Rightarrow> string \<Rightarrow> int \<Rightarrow> ProviderHoliday list) \<Rightarrow> FormData \<Rightarrow> Holiday list"
  where
  "holidays tz provider formData =
     (if FormData.startDate formData = InvalidDate \<or> FormData.endDate formData = InvalidDate
      then []
      else
        let getHolidays = provider (workCountry formData) (workState formData)
        in case (getFullYear tz (FormData.startDate formData),
                 getFullYear tz (FormData.endDate formData)) of
             (Some startYear, Some endYear) \<Rightarrow> yearLoop tz getHolidays startYear endYear []
           | _ \<Rightarrow> [])"

definition hasErrors :: "FormData \<Rightarrow> bool" where
  "hasErrors formData =
     (if FormData.startDate formData = InvalidDate \<or> FormData.endDate formData = InvalidDate
      then True
      else if dateLE (FormData.endDate formData) (FormData.startDate formData) then True
      else if minVacationDays formData \<le> 0 \<or> maxVacationDays formData \<le> 0 then True
      else if minVacationDays formData > maxVacationDays formData then True
      else False)"

definition isHoliday :: "zone \<Rightarrow> Holiday list \<Rightarrow> Date \<Rightarrow> bool" where
  "isHoliday tz hs d =
     (let normalizedDate = setHoursZero tz d
      in list_ex (\<lambda>holiday. sameTime (setHoursZero tz (date holiday)) normalizedDate) hs)"

definition isWeekendOrHoliday :: "zone \<Rightarrow> Holiday list \<Rightarrow> Date \<Rightarrow> bool" where
  "isWeekendOrHoliday tz hs d =
     (let day = getDay tz d in day = Some 0 \<or> day = Some 6 \<or> isHoliday tz hs d)"

section \<open>Window expansion\<close>

text \<open>The two \<open>while\<close> loops of the expansion. Nothing in their text bounds the number of
  iterations, so they are partial functions: \<open>None\<close> stands for a loop that never ends.\<close>

partial_function (option) extraStartLoop ::
  "zone \<Rightarrow> Holiday list \<Rightarrow> Date \<Rightarrow> Date \<Rightarrow> Date option" where
  "extraStartLoop tz hs extraStartDate tempDate =
     (if isWeekendOrHoliday tz hs tempDate
      then extraStartLoop tz hs (addDays tz extraStartDate (- 1)) (addDays tz tempDate (- 1))
      else Some extraStartDate)"

definition calculateExtraStartDate :: "zone \<Rightarrow> Holiday list \<Rightarrow> Date \<Rightarrow> Date option" where
  "calculateExtraStartDate tz hs vacationStartDate =
     extraStartLoop tz hs vacationStartDate (addDays tz vacationStartDate (- 1))"

partial_function (option) extraEndLoop ::
  "zone \<Rightarrow> Holiday list \<Rightarrow> Date \<Rightarrow> Date \<Rightarrow> Date option" where
  "extraEndLoop tz hs extraEndDate tempDate =
     (if isWeekendOrHoliday tz hs tempDate
      then extraEndLoop tz hs (addDays tz extraEndDate 1) (addDays tz tempDate 1)
      else Some extraEndDate)"

definition calculateExtraEndDate :: "zone \<Rightarrow> Holiday list \<Rightarrow> Date \<Rightarrow> Date option" where
  "calculateExtraEndDate tz hs vacationEndDate =
     extraEndLoop tz hs vacationEndDate (addDays tz vacationEndDate 1)"

section \<open>Searching and ranking\<close>

definition checkForOverlaps ::
  "zone \<Rightarrow> Date \<Rightarrow> Date \<Rightarrow> VacationPeriod list \<Rightarrow> int \<Rightarrow> bool" where
  "checkForOverlaps tz startDt endDt existingPeriods minGapBetweenPeriods =
     (let bufferStartDate = addDays tz startDt (- minGapBetweenPeriods);
          bufferEndDate = addDays tz endDt minGapBetweenPeriods
      in list_ex (\<lambda>period. dateLE bufferStartDate (VacationPeriod.endDate period) \<and>
                            dateLE (VacationPeriod.startDate period) bufferEndDate)
           existingPeriods)"

text \<open>\<open>Math.floor\<close> of the quotient is integer division, which rounds down in HOL. The
  numbers of the source give the same as long as the difference of the time values is
  below \<open>2^53\<close> and the period has less than a hundred million days: then the
  difference is exact and the quotient is not rounded up to the next integer.\<close>

definition calculateTotalDaysOff :: "VacationPeriod \<Rightarrow> number" where
  "calculateTotalDaysOff period =
     (case numSub (getTime (VacationPeriod.endDate period))
                  (getTime (VacationPeriod.startDate period)) of
        None \<Rightarrow> None
      | Some ms \<Rightarrow> Some (ms div (1000 * 60 * 60 * 24) + 1))"

text \<open>\<open>Array.prototype.sort\<close> with a comparison function: a stable sort, modelled as
  insertion sort. An element goes in front of the first element that the comparison does
  not put before it. A comparison that gives \<open>NaN\<close> counts as one that gives zero.\<close>

fun insertSorted :: "('a \<Rightarrow> 'a \<Rightarrow> number) \<Rightarrow> 'a \<Rightarrow> 'a list \<Rightarrow> 'a list" where
  "insertSorted cmp x [] = [x]"
| "insertSorted cmp x (y # ys) =
     (if (case cmp x y of None \<Rightarrow> 0 | Some v \<Rightarrow> v) \<le> 0 then x # y # ys
      else y # insertSorted cmp x ys)"

definition arraySort :: "('a \<Rightarrow> 'a \<Rightarrow> number) \<Rightarrow> 'a list \<Rightarrow> 'a list" where
  "arraySort cmp xs = foldr (insertSorted cmp) xs []"

text \<open>The comparison function of \<open>findBestAvailablePeriods\<close>, on candidates with their
  \<open>totalDaysOff\<close>.\<close>

definition compareCandidates ::
  "Date \<Rightarrow> VacationPeriod \<times> number \<Rightarrow> VacationPeriod \<times> number \<Rightarrow> number" where
  "compareCandidates startDt a b =
     (if numNe (snd b) (snd a) then numSub (snd b) (snd a)
      else let diffA = numAbs (numSub (getTime (usedStartDate (fst a))) (getTime startDt));
               diffB = numAbs (numSub (getTime (usedStartDate (fst b))) (getTime startDt))
           in numSub diffA diffB)"

text \<open>The comparison function of the final sort in \<open>handleCalculate\<close>.\<close>

definition comparePeriods :: "VacationPeriod \<Rightarrow> VacationPeriod \<Rightarrow> number" where
  "comparePeriods a b =
     (let totalDaysA = calculateTotalDaysOff a;
          totalDaysB = calculateTotalDaysOff b;
          extraDaysA = numSub totalDaysA (Some (daysCount a));
          extraDaysB = numSub totalDaysB (Some (daysCount b))
      in if numNe extraDaysB extraDaysA then numSub extraDaysB extraDaysA
         else numSub (getTime (usedStartDate a)) (getTime (usedStartDate b)))"

text \<open>The \<open>while\<close> loop of \<open>findBestAvailablePeriods\<close>. \<open>break\<close> returns the
  candidates collected so far. A window expansion that does not end makes the loop not
  end either.\<close>

function scanLoop ::
  "zone \<Rightarrow> Holiday list \<Rightarrow> Date \<Rightarrow> VacationPeriod list \<Rightarrow> int \<Rightarrow> int \<Rightarrow> Date \<Rightarrow>
   (VacationPeriod \<times> number) list \<Rightarrow> (VacationPeriod \<times> number) list option" where
  "scanLoop tz hs maxSearchDate existingPeriods daysCnt minGapBetweenPeriods currentDate
     candidatePeriods =
     (if dateLE currentDate maxSearchDate then
        if getDay tz currentDate \<noteq> Some 0 \<and> getDay tz currentDate \<noteq> Some 6 \<and>
           \<not> isHoliday tz hs currentDate
        then
          let vacationStartDate = currentDate;
              vacationEndDate = addDays tz vacationStartDate (daysCnt - 1)
          in if dateGT vacationEndDate maxSearchDate then Some candidatePeriods
             else
               case calculateExtraStartDate tz hs vacationStartDate of
                 None \<Rightarrow> None
               | Some extraStartDate \<Rightarrow>
                   (case calculateExtraEndDate tz hs vacationEndDate of
                      None \<Rightarrow> None
                    | Some extraEndDate \<Rightarrow>
                        if \<not> checkForOverlaps tz extraStartDate extraEndDate existingPeriods
                               minGapBetweenPeriods
                        then
                          let period = \<lparr>startDate = extraStartDate, endDate = extraEndDate,
                                usedStartDate = vacationStartDate,
                                usedEndDate = vacationEndDate, daysCount = daysCnt\<rparr>;
                              totalDaysOff = calculateTotalDaysOff period
                          in scanLoop tz hs maxSearchDate existingPeriods daysCnt
                               minGapBetweenPeriods (addDays tz currentDate 1)
                               (candidatePeriods @ [(period, totalDaysOff)])
                        else scanLoop tz hs maxSearchDate existingPeriods daysCnt
                               minGapBetweenPeriods (addDays tz currentDate 1)
                               candidatePeriods)
        else scanLoop tz hs maxSearchDate existingPeriods daysCnt minGapBetweenPeriods
               (addDays tz currentDate 1) candidatePeriods
      else Some candidatePeriods)"
  by pat_completeness auto
termination
  by (relation "measure (\<lambda>(tz, hs, m, ex, dc, g, c, l). remaining c)")
     (simp_all add: dateLE_remaining)

declare scanLoop.simps [simp del]

text \<open>\<open>findBestAvailablePeriods\<close>: the error thrown when no candidate was collected is
  the left summand. The gap between periods is always given by the caller, so its default
  value is not modelled.\<close>

definition findBestAvailablePeriods ::
  "zone \<Rightarrow> Holiday list \<Rightarrow> Date \<Rightarrow> Date \<Rightarrow> VacationPeriod list \<Rightarrow> int \<Rightarrow> int \<Rightarrow>
   (error + VacationPeriod list) option" where
  "findBestAvailablePeriods tz hs startDt endDt existingPeriods daysCnt
     minGapBetweenPeriods =
     (case scanLoop tz hs endDt existingPeriods daysCnt minGapBetweenPeriods startDt [] of
        None \<Rightarrow> None
      | Some candidatePeriods \<Rightarrow>
          if length candidatePeriods = 0 then Some (Inl NoValidPeriod)
          else Some (Inr (map fst (arraySort (compareCandidates startDt) candidatePeriods))))"

text \<open>The loop of \<open>handleCalculate\<close> over the numbers of vacation days: \<open>catch\<close> drops the
  error and goes on with the next number. The counter is a number, so that the loop may
  not end: it is a partial function.\<close>

partial_function (option) sweepLoop ::
  "zone \<Rightarrow> Holiday list \<Rightarrow> Date \<Rightarrow> Date \<Rightarrow> int \<Rightarrow> int \<Rightarrow> VacationPeriod list \<Rightarrow>
   VacationPeriod list option" where
  "sweepLoop tz hs currentStartDate searchEndDate maxVacDays vacationDays allCandidatePeriods =
     (if vacationDays \<le> maxVacDays then
        case findBestAvailablePeriods tz hs currentStartDate searchEndDate [] vacationDays 0 of
          None \<Rightarrow> None
        | Some (Inr periods) \<Rightarrow>
            sweepLoop tz hs currentStartDate searchEndDate maxVacDays (increment vacationDays)
              (allCandidatePeriods @ periods)
        | Some (Inl e) \<Rightarrow>
            sweepLoop tz hs currentStartDate searchEndDate maxVacDays (increment vacationDays)
              allCandidatePeriods
      else Some allCandidatePeriods)"

text \<open>\<open>handleCalculate\<close>: the value is the list given to \<open>setVacationPeriods\<close>.\<close>

definition handleCalculate ::
  "zone \<Rightarrow> Holiday list \<Rightarrow> FormData \<Rightarrow> VacationPeriod list option" where
  "handleCalculate tz hs formData =
     (let currentStartDate = FormData.startDate formData;
          searchEndDate = FormData.endDate formData
      in case sweepLoop tz hs currentStartDate searchEndDate (maxVacationDays formData)
                (minVacationDays formData) [] of
           None \<Rightarrow> None
         | Some allCandidatePeriods \<Rightarrow>
             let filteredPeriods =
                   filter (\<lambda>period.
                       let totalDays = calculateTotalDaysOff period;
                           extraDays = numSub totalDays (Some (daysCount period))
                       in numGt extraDays (Some 0)) allCandidatePeriods
             in Some (arraySort comparePeriods filteredPeriods))"

section \<open>The day count of the calendar view\<close>

text \<open>\<open>CalendarView\<close> shows the total days of a period. It counts them with a loop over
  the calendar days from the start to the end of the period.\<close>

function calendarViewLoop :: "zone \<Rightarrow> Date \<Rightarrow> Date \<Rightarrow> int \<Rightarrow> int" where
  "calendarViewLoop tz currentDate endDateValue totalDays =
     (if dateLE currentDate endDateValue
      then calendarViewLoop tz (addDays tz currentDate 1) endDateValue (totalDays + 1)
      else totalDays)"
  by pat_completeness auto
termination
  by (relation "measure (\<lambda>(tz, c, e, n). remaining c)") (simp_all add: dateLE_remaining)

declare calendarViewLoop.simps [simp del]

definition calendarViewTotalDays :: "zone \<Rightarrow> VacationPeriod \<Rightarrow> int" where
  "calendarViewTotalDays tz period =
     calendarViewLoop tz (setHoursZero tz (VacationPeriod.startDate period))
       (setHoursZero tz (VacationPeriod.endDate period)) 0"

definition calendarViewExtraDays :: "zone \<Rightarrow> VacationPeriod \<Rightarrow> int" where
  "calendarViewExtraDays tz period = calendarViewTotalDays tz period - daysCount period"

section \<open>Notions of the specification\<close>

text \<open>The dates that the scan of \<open>findBestAvailablePeriods\<close> visits from the start
  \<open>s\<close> of the horizon, one calendar day after the other; the test that the scan makes
  on a date before it takes it as the first day of a vacation; and the condition under
  which the scan goes on after a date: it leaves the loop at a date that passes the test
  and whose core window of \<open>dc\<close> days ends after the end \<open>e\<close> of the horizon.\<close>

primrec scanDate :: "zone \<Rightarrow> Date \<Rightarrow> nat \<Rightarrow> Date" where
  "scanDate tz s 0 = s"
| "scanDate tz s (Suc j) = addDays tz (scanDate tz s j) 1"

definition startsOnWorkday :: "zone \<Rightarrow> Holiday list \<Rightarrow> Date \<Rightarrow> bool" where
  "startsOnWorkday tz hs d \<longleftrightarrow>
     getDay tz d \<noteq> Some 0 \<and> getDay tz d \<noteq> Some 6 \<and> \<not> isHoliday tz hs d"

definition scanGoesOn :: "zone \<Rightarrow> Holiday list \<Rightarrow> Date \<Rightarrow> int \<Rightarrow> Date \<Rightarrow> bool" where
  "scanGoesOn tz hs e dc d \<longleftrightarrow>
     (startsOnWorkday tz hs d \<longrightarrow> \<not> dateGT (addDays tz d (dc - 1)) e)"

text \<open>The start dates for which the scan builds a core window and asks the overlap
  check: the dates visited up to the end of the horizon that pass the test, when the scan
  has not left the loop at them or before.\<close>

definition fittingStart :: "zone \<Rightarrow> Holiday list \<Rightarrow> Date \<Rightarrow> Date \<Rightarrow> int \<Rightarrow> Date \<Rightarrow> bool"
  where
  "fittingStart tz hs s e dc d \<longleftrightarrow>
     (\<exists>j. d = scanDate tz s j \<and> dateLE d e \<and> startsOnWorkday tz hs d \<and>
          (\<forall>i\<le>j. scanGoesOn tz hs e dc (scanDate tz s i)))"

text \<open>What the scan collects at its step \<open>j\<close>: the date of the step is such a start
  date, the extended window is the expansion of its core window and is not rejected by
  the overlap check, and the candidate records all of this.\<close>

definition candidateAt ::
  "zone \<Rightarrow> Holiday list \<Rightarrow> Date \<Rightarrow> Date \<Rightarrow> VacationPeriod list \<Rightarrow> int \<Rightarrow> int \<Rightarrow> nat \<Rightarrow>
   VacationPeriod \<times> number \<Rightarrow> bool" where
  "candidateAt tz hs s e ex dc g j c \<longleftrightarrow>
     dateLE (scanDate tz s j) e \<and> startsOnWorkday tz hs (scanDate tz s j) \<and>
     (\<forall>i\<le>j. scanGoesOn tz hs e dc (scanDate tz s i)) \<and>
     calculateExtraStartDate tz hs (scanDate tz s j) = Some (VacationPeriod.startDate (fst c)) \<and>
     calculateExtraEndDate tz hs (addDays tz (scanDate tz s j) (dc - 1)) =
       Some (VacationPeriod.endDate (fst c)) \<and>
     \<not> checkForOverlaps tz (VacationPeriod.startDate (fst c)) (VacationPeriod.endDate (fst c))
          ex g \<and>
     usedStartDate (fst c) = scanDate tz s j \<and>
     usedEndDate (fst c) = addDays tz (scanDate tz s j) (dc - 1) \<and>
     daysCount (fst c) = dc \<and> snd c = calculateTotalDaysOff (fst c)"

text \<open>What one number of vacation days contributes to the sweep: the periods found, or
  nothing when the search threw.\<close>

definition periodsFor ::
  "zone \<Rightarrow> Holiday list \<Rightarrow> Date \<Rightarrow> Date \<Rightarrow> int \<Rightarrow> VacationPeriod list" where
  "periodsFor tz hs s e v =
     (case findBestAvailablePeriods tz hs s e [] v 0 of
        Some (Inr periods) \<Rightarrow> periods
      | _ \<Rightarrow> [])"

text \<open>The time values from one date to another; there are none when one of the dates is
  an Invalid Date.\<close>

definition timeRange :: "Date \<Rightarrow> Date \<Rightarrow> int set" where
  "timeRange a b = (case (a, b) of (TimeValue x, TimeValue y) \<Rightarrow> {x..y} | _ \<Rightarrow> {})"

text \<open>The extra days of a period, in the words of the specification: the number of
  calendar days from the extended start to the extended end, less the number of vacation
  days. It is not a number when one of the two dates is an Invalid Date.\<close>

definition extraDays :: "zone \<Rightarrow> VacationPeriod \<Rightarrow> number" where
  "extraDays tz p =
     (case (VacationPeriod.startDate p, VacationPeriod.endDate p) of
        (TimeValue a, TimeValue b) \<Rightarrow> Some ((localDay tz b - localDay tz a + 1) - daysCount p)
      | _ \<Rightarrow> None)"

section \<open>Concrete inputs\<close>

text \<open>Scenario A of the specification, in universal time: the year 2025 with one
  holiday, Wednesday 2025-01-01, and a vacation from Monday 2025-01-06 to Friday
  2025-01-10. \<open>weekForm\<close> is a search whose horizon is exactly that week.\<close>

definition scenarioA_provider :: "string \<Rightarrow> string \<Rightarrow> int \<Rightarrow> ProviderHoliday list" where
  "scenarioA_provider country state year =
     (if year = 2025
      then [\<lparr>h_start = mkDate utcZone 2025 1 1 0, h_end = mkDate utcZone 2025 1 2 0,
             h_name = ''New Year''\<rparr>]
      else [])"

definition scenarioA_form :: FormData where
  "scenarioA_form =
     \<lparr>workCountry = ''BR'', workState = [], minVacationDays = 5, maxVacationDays = 5,
      startDate = mkDate utcZone 2025 1 1 0, endDate = mkDate utcZone 2025 12 31 0\<rparr>"

definition scenarioA_holidays :: "Holiday list" where
  "scenarioA_holidays = [\<lparr>date = mkDate utcZone 2025 1 1 0, name = ''New Year''\<rparr>]"

definition scenarioA_period :: VacationPeriod where
  "scenarioA_period =
     \<lparr>startDate = mkDate utcZone 2025 1 4 0, endDate = mkDate utcZone 2025 1 12 0,
      usedStartDate = mkDate utcZone 2025 1 6 0, usedEndDate = mkDate utcZone 2025 1 10 0,
      daysCount = 5\<rparr>"

definition weekForm :: FormData where
  "weekForm =
     \<lparr>workCountry = ''BR'', workState = [], minVacationDays = 5, maxVacationDays = 5,
      startDate = mkDate utcZone 2025 1 6 0, endDate = mkDate utcZone 2025 1 10 0\<rparr>"

text \<open>A period of the week after, from Monday 2025-01-13 to Friday 2025-01-17 with the
  weekends around it.\<close>

definition scenarioD_second :: VacationPeriod where
  "scenarioD_second =
     \<lparr>startDate = mkDate utcZone 2025 1 11 0, endDate = mkDate utcZone 2025 1 19 0,
      usedStartDate = mkDate utcZone 2025 1 13 0, usedEndDate = mkDate utcZone 2025 1 17 0,
      daysCount = 5\<rparr>"

text \<open>The horizon of \<open>weekForm\<close> with a hundred million vacation days: the form has no
  errors. \<open>longPeriod\<close> is the period with that many days that starts on the scan date
  \<open>d\<close> and has no valid end.\<close>

definition longForm :: FormData where
  "longForm =
     \<lparr>workCountry = ''BR'', workState = [], minVacationDays = 100000000,
      maxVacationDays = 100000000,
      startDate = mkDate utcZone 2025 1 6 0, endDate = mkDate utcZone 2025 1 10 0\<rparr>"

definition longPeriod :: "Date \<Rightarrow> Date \<Rightarrow> VacationPeriod" where
  "longPeriod ext d =
     \<lparr>startDate = ext, endDate = InvalidDate, usedStartDate = d, usedEndDate = InvalidDate,
      daysCount = 100000000\<rparr>"

definition longPeriods :: "VacationPeriod list" where
  "longPeriods =
     [longPeriod (mkDate utcZone 2025 1 4 0) (mkDate utcZone 2025 1 6 0),
      longPeriod (mkDate utcZone 2025 1 7 0) (mkDate utcZone 2025 1 7 0),
      longPeriod (mkDate utcZone 2025 1 8 0) (mkDate utcZone 2025 1 8 0),
      longPeriod (mkDate utcZone 2025 1 9 0) (mkDate utcZone 2025 1 9 0),
      longPeriod (mkDate utcZone 2025 1 10 0) (mkDate utcZone 2025 1 10 0)]"

text \<open>A horizon that starts at noon of Monday 2025-01-06 and ends at midnight, the start
  of Friday 2025-01-10, as it does when the start date is the time at which the page was
  opened and the end date comes from the date field.\<close>

definition lateStartForm :: FormData where
  "lateStartForm =
     \<lparr>workCountry = ''BR'', workState = [], minVacationDays = 5, maxVacationDays = 5,
      startDate = mkDate utcZone 2025 1 6 12, endDate = mkDate utcZone 2025 1 10 0\<rparr>"

text \<open>A feast that runs from 18:00 on 2025-01-01 to 18:00 on 2025-01-02, as the spans of
  holidays that begin at sunset do, and a form for the year 2025.\<close>

definition sunsetSpan :: ProviderHoliday where
  "sunsetSpan =
     \<lparr>h_start = mkDate utcZone 2025 1 1 18, h_end = mkDate utcZone 2025 1 2 18,
      h_name = ''Feast''\<rparr>"

definition sunsetProvider :: "string \<Rightarrow> string \<Rightarrow> int \<Rightarrow> ProviderHoliday list" where
  "sunsetProvider country state year = (if year = 2025 then [sunsetSpan] else [])"

text \<open>A search in the time zone of New York, where summer time begins on Sunday
  2025-03-09: the horizon runs from noon of Monday 2025-02-24 to noon of Friday
  2025-03-07, with five or six vacation days and no holidays. The four periods are the
  ones that the engine returns.\<close>

definition easternForm :: FormData where
  "easternForm =
     \<lparr>workCountry = ''US'', workState = [], minVacationDays = 5, maxVacationDays = 6,
      startDate = mkDate easternZone 2025 2 24 12, endDate = mkDate easternZone 2025 3 7 12\<rparr>"

definition easternFirst :: VacationPeriod where
  "easternFirst =
     \<lparr>startDate = mkDate easternZone 2025 2 22 12, endDate = mkDate easternZone 2025 3 2 12,
      usedStartDate = mkDate easternZone 2025 2 24 12,
      usedEndDate = mkDate easternZone 2025 2 28 12, daysCount = 5\<rparr>"

definition easternSecond :: VacationPeriod where
  "easternSecond =
     \<lparr>startDate = mkDate easternZone 2025 2 22 12, endDate = mkDate easternZone 2025 3 2 12,
      usedStartDate = mkDate easternZone 2025 2 24 12,
      usedEndDate = mkDate easternZone 2025 3 1 12, daysCount = 6\<rparr>"

definition easternThird :: VacationPeriod where
  "easternThird =
     \<lparr>startDate = mkDate easternZone 2025 3 1 12, endDate = mkDate easternZone 2025 3 9 12,
      usedStartDate = mkDate easternZone 2025 3 3 12,
      usedEndDate = mkDate easternZone 2025 3 7 12, daysCount = 5\<rparr>"

definition easternFourth :: VacationPeriod where
  "easternFourth =
     \<lparr>startDate = mkDate easternZone 2025 2 25 12, endDate = mkDate easternZone 2025 3 2 12,
      usedStartDate = mkDate easternZone 2025 2 25 12,
      usedEndDate = mkDate easternZone 2025 3 1 12, daysCount = 5\<rparr>"

section \<open>Basic facts about the classification of days\<close>


lemma addDays_valid_arg: "addDays tz d k = TimeValue t' \<Longrightarrow> \<exists>t. d = TimeValue t"
  by (cases d) (simp_all add: addDays_def)

lemma steps_localDay:
  "((\<lambda>x. addDays tz x k) ^^ n) d = TimeValue t' \<Longrightarrow>
   \<exists>t. d = TimeValue t \<and> localDay tz t' = localDay tz t + int n * k"
proof (induction n arbitrary: t')
  case 0
  then show ?case by simp
next
  case (Suc n)
  then have s: "addDays tz (((\<lambda>x. addDays tz x k) ^^ n) d) k = TimeValue t'" by simp
  then obtain x where x: "((\<lambda>x. addDays tz x k) ^^ n) d = TimeValue x"
    using addDays_valid_arg by blast
  with s have "localDay tz t' = localDay tz x + k" by (simp add: addDays_localDay)
  moreover from Suc.IH [OF x] obtain t where "d = TimeValue t"
    "localDay tz x = localDay tz t + int n * k" by blast
  ultimately show ?case by (simp add: algebra_simps)
qed

lemma isWeekendOrHoliday_Invalid: "\<not> isWeekendOrHoliday tz hs InvalidDate"
  by (simp add: isWeekendOrHoliday_def isHoliday_def getDay_def setHoursZero_def sameTime_def
      list_ex_iff split: Date.splits)

lemma isHoliday_Invalid: "\<not> isHoliday tz hs InvalidDate"
  by (simp add: isHoliday_def setHoursZero_def sameTime_def list_ex_iff split: Date.splits)


lemma getDay_localDay: "getDay tz (TimeValue t) = Some ((localDay tz t + 4) mod 7)"
  by (simp add: getDay_def WeekDay_def localDay_def)


lemma midnight_inj:
  assumes "UTC tz (a * msPerDay) = UTC tz (b * msPerDay)"
  shows "a = b"
proof -
  have "Day (LocalTime tz (UTC tz (a * msPerDay))) = Day (LocalTime tz (UTC tz (b * msPerDay)))"
    using assms by simp
  then have "Day (a * msPerDay) = Day (b * msPerDay)" by (simp only: zone_keeps_day)
  then show ?thesis using msPerDay_pos by (simp add: Day_def)
qed

lemma isHoliday_day:
  assumes "isHoliday tz hs (TimeValue t)"
  shows "\<exists>h \<in> set hs. \<exists>u. date h = TimeValue u \<and> localDay tz u = localDay tz t"
proof -
  from assms obtain h where h: "h \<in> set hs"
    "sameTime (setHoursZero tz (date h)) (setHoursZero tz (TimeValue t))"
    by (auto simp: isHoliday_def list_ex_iff)
  from h(2) obtain u where u: "date h = TimeValue u"
    by (cases "date h") (simp_all add: setHoursZero_def sameTime_def)
  from h(2) u have "UTC tz (localDay tz u * msPerDay) = UTC tz (localDay tz t * msPerDay)"
    by (simp add: setHoursZero_def sameTime_def TimeClip_def localDay_def split: if_splits)
  then have "localDay tz u = localDay tz t" by (rule midnight_inj)
  with h(1) u show ?thesis by blast
qed

text \<open>The local calendar days of the holidays of a list.\<close>

lemma holidayDays_finite:
  "finite {D. \<exists>h \<in> set hs. \<exists>u. date h = TimeValue u \<and> localDay tz u = D}"
proof -
  let ?f = "\<lambda>h. case date h of TimeValue u \<Rightarrow> localDay tz u | InvalidDate \<Rightarrow> 0"
  have "{D. \<exists>h \<in> set hs. \<exists>u. date h = TimeValue u \<and> localDay tz u = D} \<subseteq> ?f ` set hs"
  proof
    fix D assume "D \<in> {D. \<exists>h \<in> set hs. \<exists>u. date h = TimeValue u \<and> localDay tz u = D}"
    then obtain h u where h: "h \<in> set hs" "date h = TimeValue u" "localDay tz u = D" by blast
    then have "D = ?f h" by simp
    with h(1) show "D \<in> ?f ` set hs" by (rule_tac image_eqI)
  qed
  then show ?thesis by (rule finite_subset) simp
qed

lemma workday_of_free_monday:
  assumes "(localDay tz t + 4) mod 7 = 1"
    and "\<not> (\<exists>h \<in> set hs. \<exists>u. date h = TimeValue u \<and> localDay tz u = localDay tz t)"
  shows "\<not> isWeekendOrHoliday tz hs (TimeValue t)"
proof -
  have "\<not> isHoliday tz hs (TimeValue t)" using assms(2) isHoliday_day by blast
  then show ?thesis using assms(1) by (simp add: isWeekendOrHoliday_def getDay_localDay)
qed

lemma free_monday_below:
  "\<exists>D. D < L \<and> (D + 4) mod 7 = 1 \<and>
       \<not> (\<exists>h \<in> set hs. \<exists>u. date h = TimeValue u \<and> localDay tz u = D)"
proof -
  define H where "H = insert L {D. \<exists>h \<in> set hs. \<exists>u. date h = TimeValue u \<and> localDay tz u = D}"
  define m where "m = Min H"
  define D where "D = m - 1 - ((m + 2) mod 7)"
  have fin: "finite H" unfolding H_def using holidayDays_finite by simp
  have mle: "\<And>x. x \<in> H \<Longrightarrow> m \<le> x" unfolding m_def using fin by simp
  have Dlt: "D < m" unfolding D_def by presburger
  have wd: "(D + 4) mod 7 = 1" unfolding D_def by presburger
  have "m \<le> L" by (rule mle) (simp add: H_def)
  with Dlt have "D < L" by simp
  moreover have "\<not> (\<exists>h \<in> set hs. \<exists>u. date h = TimeValue u \<and> localDay tz u = D)"
  proof
    assume "\<exists>h \<in> set hs. \<exists>u. date h = TimeValue u \<and> localDay tz u = D"
    then have "D \<in> H" by (simp add: H_def)
    then have "m \<le> D" by (rule mle)
    with Dlt show False by simp
  qed
  ultimately show ?thesis using wd by blast
qed

lemma free_monday_above:
  "\<exists>D. L < D \<and> (D + 4) mod 7 = 1 \<and>
       \<not> (\<exists>h \<in> set hs. \<exists>u. date h = TimeValue u \<and> localDay tz u = D)"
proof -
  define H where "H = insert L {D. \<exists>h \<in> set hs. \<exists>u. date h = TimeValue u \<and> localDay tz u = D}"
  define m where "m = Max H"
  define D where "D = m + 1 + ((- (m + 4)) mod 7)"
  have fin: "finite H" unfolding H_def using holidayDays_finite by simp
  have mle: "\<And>x. x \<in> H \<Longrightarrow> x \<le> m" unfolding m_def using fin by simp
  have Dlt: "m < D" unfolding D_def by presburger
  have wd: "(D + 4) mod 7 = 1" unfolding D_def by presburger
  have "L \<le> m" by (rule mle) (simp add: H_def)
  with Dlt have "L < D" by simp
  moreover have "\<not> (\<exists>h \<in> set hs. \<exists>u. date h = TimeValue u \<and> localDay tz u = D)"
  proof
    assume "\<exists>h \<in> set hs. \<exists>u. date h = TimeValue u \<and> localDay tz u = D"
    then have "D \<in> H" by (simp add: H_def)
    then have "D \<le> m" by (rule mle)
    with Dlt show False by simp
  qed
  ultimately show ?thesis using wd by blast
qed

lemma workday_at_day:
  assumes "(D + 4) mod 7 = 1"
    and "\<not> (\<exists>h \<in> set hs. \<exists>u. date h = TimeValue u \<and> localDay tz u = D)"
    and "((\<lambda>x. addDays tz x k) ^^ n) (TimeValue t) = X"
    and "localDay tz t + int n * k = D"
  shows "\<not> isWeekendOrHoliday tz hs X"
proof (cases X)
  case InvalidDate
  then show ?thesis by (simp add: isWeekendOrHoliday_Invalid)
next
  case (TimeValue x)
  with assms(3) have "((\<lambda>x. addDays tz x k) ^^ n) (TimeValue t) = TimeValue x" by simp
  from steps_localDay [OF this] assms(4) have "localDay tz x = D" by simp
  with assms(1,2) show ?thesis unfolding TimeValue by (intro workday_of_free_monday) simp_all
qed

lemma workday_below: "\<exists>n. \<not> isWeekendOrHoliday tz hs (((\<lambda>x. addDays tz x (- 1)) ^^ n) d)"
proof (cases d)
  case InvalidDate
  have "\<not> isWeekendOrHoliday tz hs (((\<lambda>x. addDays tz x (- 1)) ^^ 0) d)"
    using InvalidDate by (simp add: isWeekendOrHoliday_Invalid)
  then show ?thesis ..
next
  case (TimeValue t)
  obtain D where D: "D < localDay tz t" "(D + 4) mod 7 = 1"
    "\<not> (\<exists>h \<in> set hs. \<exists>u. date h = TimeValue u \<and> localDay tz u = D)"
    using free_monday_below by blast
  define n where "n = nat (localDay tz t - D)"
  have "localDay tz t + int n * (- 1) = D" using D(1) by (simp add: n_def)
  from workday_at_day [OF D(2,3) refl this]
  show ?thesis unfolding TimeValue ..
qed

lemma workday_above: "\<exists>n. \<not> isWeekendOrHoliday tz hs (((\<lambda>x. addDays tz x 1) ^^ n) d)"
proof (cases d)
  case InvalidDate
  have "\<not> isWeekendOrHoliday tz hs (((\<lambda>x. addDays tz x 1) ^^ 0) d)"
    using InvalidDate by (simp add: isWeekendOrHoliday_Invalid)
  then show ?thesis ..
next
  case (TimeValue t)
  obtain D where D: "localDay tz t < D" "(D + 4) mod 7 = 1"
    "\<not> (\<exists>h \<in> set hs. \<exists>u. date h = TimeValue u \<and> localDay tz u = D)"
    using free_monday_above by blast
  define n where "n = nat (D - localDay tz t)"
  have "localDay tz t + int n * 1 = D" using D(1) by (simp add: n_def)
  from workday_at_day [OF D(2,3) refl this]
  show ?thesis unfolding TimeValue ..
qed

section \<open>The expansion loops end\<close>

lemma loop_steps:
  assumes eq: "\<And>ext tmp. loop ext tmp = (if P tmp then loop (f ext) (f tmp) else Some ext)"
  shows "\<not> P ((f ^^ n) tmp) \<Longrightarrow>
     \<exists>k\<le>n. loop ext tmp = Some ((f ^^ k) ext) \<and> (\<forall>j<k. P ((f ^^ j) tmp)) \<and>
            \<not> P ((f ^^ k) tmp)"
proof (induction n arbitrary: ext tmp)
  case 0
  then have "\<not> P tmp" by simp
  then have "loop ext tmp = Some ((f ^^ 0) ext) \<and> (\<forall>j<(0::nat). P ((f ^^ j) tmp)) \<and>
      \<not> P ((f ^^ 0) tmp)"
    by (subst eq) simp
  then show ?case by blast
next
  case (Suc n)
  show ?case
  proof (cases "P tmp")
    case False
    then have "loop ext tmp = Some ((f ^^ 0) ext) \<and> (\<forall>j<(0::nat). P ((f ^^ j) tmp)) \<and>
        \<not> P ((f ^^ 0) tmp)"
      by (subst eq) simp
    then show ?thesis by blast
  next
    case True
    have "\<not> P ((f ^^ n) (f tmp))" using Suc.prems by (simp add: funpow_swap1)
    from Suc.IH [OF this, of "f ext"]
    obtain k where k: "k \<le> n" "loop (f ext) (f tmp) = Some ((f ^^ k) (f ext))"
      "\<forall>j<k. P ((f ^^ j) (f tmp))" "\<not> P ((f ^^ k) (f tmp))"
      by blast
    have 1: "loop ext tmp = Some ((f ^^ Suc k) ext)"
      using True k(2) by (subst eq) (simp add: funpow_swap1)
    have 2: "\<forall>j<Suc k. P ((f ^^ j) tmp)"
    proof (intro allI impI)
      fix j assume "j < Suc k"
      show "P ((f ^^ j) tmp)"
      proof (cases j)
        case 0 then show ?thesis using True by simp
      next
        case (Suc i)
        with \<open>j < Suc k\<close> have "i < k" by simp
        with k(3) have "P ((f ^^ i) (f tmp))" by blast
        then show ?thesis using Suc by (simp add: funpow_swap1)
      qed
    qed
    have 3: "\<not> P ((f ^^ Suc k) tmp)" using k(4) by (simp add: funpow_swap1)
    from k(1) 1 2 3 show ?thesis by (intro exI [of _ "Suc k"]) simp
  qed
qed

lemma probes_shift:
  assumes "\<forall>j<k. P ((f ^^ j) (f v))"
  shows "\<forall>j. 1 \<le> j \<and> j \<le> k \<longrightarrow> P ((f ^^ j) v)"
proof (intro allI impI)
  fix j :: nat assume j: "1 \<le> j \<and> j \<le> k"
  then obtain i where i: "j = Suc i" by (cases j) simp_all
  with j have "i < k" by simp
  with assms have "P ((f ^^ i) (f v))" by blast
  then show "P ((f ^^ j) v)" unfolding i by (simp add: funpow_swap1)
qed

lemma calculateExtraStartDate_steps:
  "\<exists>k::nat. calculateExtraStartDate tz hs v = Some (((\<lambda>x. addDays tz x (- 1)) ^^ k) v) \<and>
     (\<forall>j. 1 \<le> j \<and> j \<le> k \<longrightarrow>
        isWeekendOrHoliday tz hs (((\<lambda>x. addDays tz x (- 1)) ^^ j) v)) \<and>
     \<not> isWeekendOrHoliday tz hs (((\<lambda>x. addDays tz x (- 1)) ^^ Suc k) v)"
proof -
  let ?f = "\<lambda>x. addDays tz x (- 1)"
  obtain n :: nat where n: "\<not> isWeekendOrHoliday tz hs ((?f ^^ n) (?f v))"
    using workday_below by blast
  have eq: "\<And>ext tmp. extraStartLoop tz hs ext tmp =
      (if isWeekendOrHoliday tz hs tmp then extraStartLoop tz hs (?f ext) (?f tmp) else Some ext)"
    by (subst extraStartLoop.simps) simp
  from loop_steps [of "extraStartLoop tz hs" "isWeekendOrHoliday tz hs" ?f, OF eq n, of v]
  obtain k where k: "extraStartLoop tz hs v (?f v) = Some ((?f ^^ k) v)"
    "\<forall>j<k. isWeekendOrHoliday tz hs ((?f ^^ j) (?f v))"
    "\<not> isWeekendOrHoliday tz hs ((?f ^^ k) (?f v))"
    by blast
  note 2 = probes_shift [of k "isWeekendOrHoliday tz hs" ?f v, OF k(2)]
  have 3: "\<not> isWeekendOrHoliday tz hs ((?f ^^ Suc k) v)"
    using k(3) funpow_swap1 [of ?f k v] by simp
  from k(1) 2 3 show ?thesis unfolding calculateExtraStartDate_def by blast
qed

lemma calculateExtraEndDate_steps:
  "\<exists>k::nat. calculateExtraEndDate tz hs v = Some (((\<lambda>x. addDays tz x 1) ^^ k) v) \<and>
     (\<forall>j. 1 \<le> j \<and> j \<le> k \<longrightarrow>
        isWeekendOrHoliday tz hs (((\<lambda>x. addDays tz x 1) ^^ j) v)) \<and>
     \<not> isWeekendOrHoliday tz hs (((\<lambda>x. addDays tz x 1) ^^ Suc k) v)"
proof -
  let ?f = "\<lambda>x. addDays tz x 1"
  obtain n :: nat where n: "\<not> isWeekendOrHoliday tz hs ((?f ^^ n) (?f v))"
    using workday_above by blast
  have eq: "\<And>ext tmp. extraEndLoop tz hs ext tmp =
      (if isWeekendOrHoliday tz hs tmp then extraEndLoop tz hs (?f ext) (?f tmp) else Some ext)"
    by (subst extraEndLoop.simps) simp
  from loop_steps [of "extraEndLoop tz hs" "isWeekendOrHoliday tz hs" ?f, OF eq n, of v]
  obtain k where k: "extraEndLoop tz hs v (?f v) = Some ((?f ^^ k) v)"
    "\<forall>j<k. isWeekendOrHoliday tz hs ((?f ^^ j) (?f v))"
    "\<not> isWeekendOrHoliday tz hs ((?f ^^ k) (?f v))"
    by blast
  note 2 = probes_shift [of k "isWeekendOrHoliday tz hs" ?f v, OF k(2)]
  have 3: "\<not> isWeekendOrHoliday tz hs ((?f ^^ Suc k) v)"
    using k(3) funpow_swap1 [of ?f k v] by simp
  from k(1) 2 3 show ?thesis unfolding calculateExtraEndDate_def by blast
qed

lemma calculateExtraStartDate_returns: "\<exists>r. calculateExtraStartDate tz hs d = Some r"
  using calculateExtraStartDate_steps [of tz hs d] by blast

lemma calculateExtraEndDate_returns: "\<exists>r. calculateExtraEndDate tz hs d = Some r"
  using calculateExtraEndDate_steps [of tz hs d] by blast



section \<open>Termination of the window expansion\<close>


section \<open>The run of days that the expansion attaches\<close>




section \<open>Evaluation at the concrete inputs\<close>

lemma daysFromCivil_values:
  "daysFromCivil 2025 1 1 = 20089"
  "daysFromCivil 2025 1 2 = 20090"
  "daysFromCivil 2025 1 4 = 20092"
  "daysFromCivil 2025 1 5 = 20093"
  "daysFromCivil 2025 1 6 = 20094"
  "daysFromCivil 2025 1 7 = 20095"
  "daysFromCivil 2025 1 8 = 20096"
  "daysFromCivil 2025 1 9 = 20097"
  "daysFromCivil 2025 1 10 = 20098"
  "daysFromCivil 2025 1 11 = 20099"
  "daysFromCivil 2025 1 12 = 20100"
  "daysFromCivil 2025 1 13 = 20101"
  "daysFromCivil 2025 1 17 = 20105"
  "daysFromCivil 2025 1 19 = 20107"
  "daysFromCivil 2025 12 31 = 20453"
  "daysFromCivil 2025 2 22 = 20141"
  "daysFromCivil 2025 2 24 = 20143"
  "daysFromCivil 2025 2 25 = 20144"
  "daysFromCivil 2025 2 28 = 20147"
  "daysFromCivil 2025 3 1 = 20148"
  "daysFromCivil 2025 3 2 = 20149"
  "daysFromCivil 2025 3 3 = 20150"
  "daysFromCivil 2025 3 7 = 20154"
  "daysFromCivil 2025 3 9 = 20156"
  by code_simp+

lemma yearFromDays_2025: "yearFromDays 20089 = 2025" "yearFromDays 20453 = 2025"
  by code_simp+

lemmas zone_eval = LocalTime_def UTC_def LocalTZA.rep_eq utcZone.rep_eq easternZone.rep_eq
  easternOffsets_def

lemma mkDate_values:
  "mkDate utcZone 2025 1 1 0 = TimeValue 1735689600000"
  "mkDate utcZone 2025 1 1 6 = TimeValue 1735711200000"
  "mkDate utcZone 2025 1 1 18 = TimeValue 1735754400000"
  "mkDate utcZone 2025 1 2 0 = TimeValue 1735776000000"
  "mkDate utcZone 2025 1 2 12 = TimeValue 1735819200000"
  "mkDate utcZone 2025 1 2 18 = TimeValue 1735840800000"
  "mkDate utcZone 2025 1 4 0 = TimeValue 1735948800000"
  "mkDate utcZone 2025 1 5 12 = TimeValue 1736078400000"
  "mkDate utcZone 2025 1 6 0 = TimeValue 1736121600000"
  "mkDate utcZone 2025 1 6 12 = TimeValue 1736164800000"
  "mkDate utcZone 2025 1 7 0 = TimeValue 1736208000000"
  "mkDate utcZone 2025 1 8 0 = TimeValue 1736294400000"
  "mkDate utcZone 2025 1 9 0 = TimeValue 1736380800000"
  "mkDate utcZone 2025 1 10 0 = TimeValue 1736467200000"
  "mkDate utcZone 2025 1 10 12 = TimeValue 1736510400000"
  "mkDate utcZone 2025 1 11 0 = TimeValue 1736553600000"
  "mkDate utcZone 2025 1 11 12 = TimeValue 1736596800000"
  "mkDate utcZone 2025 1 12 0 = TimeValue 1736640000000"
  "mkDate utcZone 2025 1 13 0 = TimeValue 1736726400000"
  "mkDate utcZone 2025 1 17 0 = TimeValue 1737072000000"
  "mkDate utcZone 2025 1 19 0 = TimeValue 1737244800000"
  "mkDate utcZone 2025 12 31 0 = TimeValue 1767139200000"
  by (simp_all add: mkDate_def daysFromCivil_values TimeClip_def zone_eval msPerDay_def
      msPerHour_def maxTimeValue_def)

lemma mkDate_eastern:
  "mkDate easternZone 2025 2 22 12 = TimeValue 1740243600000"
  "mkDate easternZone 2025 2 24 12 = TimeValue 1740416400000"
  "mkDate easternZone 2025 2 25 12 = TimeValue 1740502800000"
  "mkDate easternZone 2025 2 28 12 = TimeValue 1740762000000"
  "mkDate easternZone 2025 3 1 12 = TimeValue 1740848400000"
  "mkDate easternZone 2025 3 2 12 = TimeValue 1740934800000"
  "mkDate easternZone 2025 3 3 12 = TimeValue 1741021200000"
  "mkDate easternZone 2025 3 7 12 = TimeValue 1741366800000"
  "mkDate easternZone 2025 3 9 12 = TimeValue 1741536000000"
  by (simp_all add: mkDate_def daysFromCivil_values TimeClip_def zone_eval msPerDay_def
      msPerHour_def maxTimeValue_def)

lemma getFullYear_2025:
  "getFullYear utcZone (TimeValue 1735689600000) = Some 2025"
  "getFullYear utcZone (TimeValue 1767139200000) = Some 2025"
  by (simp_all add: getFullYear_def zone_eval Day_def msPerDay_def yearFromDays_2025)

lemmas date_eval = msPerDay_def maxTimeValue_def addDays_def getDay_def Day_def WeekDay_def
  TimeClip_def zone_eval isWeekendOrHoliday_def isHoliday_def setHoursZero_def sameTime_def
  dateLE_def dateLT_def dateGT_def getTime_def numSub_def numAbs_def numNe_def numGt_def Let_def

lemmas engine_eval = handleCalculate_def sweepLoop.simps findBestAvailablePeriods_def
  scanLoop.simps calculateExtraStartDate_def extraStartLoop.simps calculateExtraEndDate_def
  extraEndLoop.simps checkForOverlaps_def calculateTotalDaysOff_def arraySort_def
  compareCandidates_def comparePeriods_def increment_def

lemma scenarioA_holidays_built:
  "holidays utcZone scenarioA_provider scenarioA_form = scenarioA_holidays"
  by (simp add: holidays_def scenarioA_form_def mkDate_values getFullYear_2025 yearLoop.simps
      scenarioA_provider_def scenarioA_holidays_def spanDays.simps date_eval)

lemma scenarioA_start:
  "calculateExtraStartDate utcZone scenarioA_holidays (mkDate utcZone 2025 1 6 0) =
     Some (mkDate utcZone 2025 1 4 0)"
  by (simp add: scenarioA_holidays_def mkDate_values calculateExtraStartDate_def
      extraStartLoop.simps date_eval)

lemma scenarioA_end:
  "calculateExtraEndDate utcZone scenarioA_holidays (mkDate utcZone 2025 1 10 0) =
     Some (mkDate utcZone 2025 1 12 0)"
  by (simp add: scenarioA_holidays_def mkDate_values calculateExtraEndDate_def
      extraEndLoop.simps date_eval)

lemma weekForm_result: "handleCalculate utcZone [] weekForm = Some [scenarioA_period]"
  by (simp add: weekForm_def scenarioA_period_def mkDate_values engine_eval date_eval)

lemma long_findBest:
  "findBestAvailablePeriods utcZone [] (mkDate utcZone 2025 1 6 0) (mkDate utcZone 2025 1 10 0)
     [] 100000000 0 = Some (Inr longPeriods)"
  by (simp add: longPeriods_def longPeriod_def mkDate_values engine_eval date_eval)

lemma long_sweep:
  "sweepLoop utcZone [] (mkDate utcZone 2025 1 6 0) (mkDate utcZone 2025 1 10 0)
     100000000 100000000 [] = Some longPeriods"
  by (simp add: longPeriods_def longPeriod_def mkDate_values engine_eval date_eval)

lemma long_result: "handleCalculate utcZone [] longForm = Some []"
  by (simp add: longForm_def mkDate_values engine_eval date_eval)

lemma lateStart_findBest:
  "findBestAvailablePeriods utcZone [] (mkDate utcZone 2025 1 6 12) (mkDate utcZone 2025 1 10 0)
     [] 5 0 = Some (Inl NoValidPeriod)"
  by (simp add: mkDate_values engine_eval date_eval)

lemma sunset_holidays:
  "holidays utcZone sunsetProvider scenarioA_form =
     [\<lparr>date = mkDate utcZone 2025 1 1 18, name = ''Feast''\<rparr>]"
  by (simp add: holidays_def scenarioA_form_def mkDate_values getFullYear_2025 yearLoop.simps
      sunsetProvider_def sunsetSpan_def spanDays.simps date_eval)

lemma eastern_result:
  "handleCalculate easternZone [] easternForm =
     Some [easternFirst, easternSecond, easternThird, easternFourth]"
  by (simp add: easternForm_def easternFirst_def easternSecond_def easternThird_def
      easternFourth_def mkDate_eastern engine_eval date_eval)

section \<open>The scan of the horizon\<close>

lemma scanDate_shift: "scanDate tz s (Suc j) = scanDate tz (addDays tz s 1) j"
  by (induction j) simp_all

lemma scanDate_valid:
  "scanDate tz s j = TimeValue x \<Longrightarrow> \<exists>t. s = TimeValue t \<and> t \<le> x"
proof (induction j arbitrary: x)
  case 0
  then show ?case by simp
next
  case (Suc j)
  then have a: "addDays tz (scanDate tz s j) 1 = TimeValue x" by simp
  then obtain y where y: "scanDate tz s j = TimeValue y" using addDays_valid_arg by blast
  with a have "y < x" by (intro addDays_later [of 1 tz y x]) simp_all
  moreover from Suc.IH [OF y] obtain t where "s = TimeValue t" "t \<le> y" by blast
  ultimately show ?case by simp
qed

lemma dateLE_scanDate: "dateLE (scanDate tz s j) e \<Longrightarrow> dateLE s e"
proof -
  assume a: "dateLE (scanDate tz s j) e"
  then obtain x y where x: "scanDate tz s j = TimeValue x" "e = TimeValue y" "x \<le> y"
    by (cases "scanDate tz s j"; cases e) (simp_all add: dateLE_def)
  from scanDate_valid [OF x(1)] obtain t where "s = TimeValue t" "t \<le> x" by blast
  with x show ?thesis by (simp add: dateLE_def)
qed

lemma all_le_Suc_split: "(\<forall>i\<le>Suc j. P i) \<longleftrightarrow> P 0 \<and> (\<forall>i\<le>j. P (Suc i))"
proof
  assume a: "\<forall>i\<le>Suc j. P i"
  then show "P 0 \<and> (\<forall>i\<le>j. P (Suc i))" by simp
next
  assume a: "P 0 \<and> (\<forall>i\<le>j. P (Suc i))"
  show "\<forall>i\<le>Suc j. P i"
  proof (intro allI impI)
    fix i assume "i \<le> Suc j"
    then show "P i" using a by (cases i) simp_all
  qed
qed

lemma candidateAt_Suc:
  "candidateAt tz hs s e ex dc g (Suc j) c \<longleftrightarrow>
   scanGoesOn tz hs e dc s \<and> candidateAt tz hs (addDays tz s 1) e ex dc g j c"
  unfolding candidateAt_def all_le_Suc_split scanDate_shift by auto

lemma ex_candidate_split:
  "(\<exists>j. candidateAt tz hs s e ex dc g j c) \<longleftrightarrow>
   candidateAt tz hs s e ex dc g 0 c \<or>
   (scanGoesOn tz hs e dc s \<and> (\<exists>j. candidateAt tz hs (addDays tz s 1) e ex dc g j c))"
proof
  assume "\<exists>j. candidateAt tz hs s e ex dc g j c"
  then obtain j where j: "candidateAt tz hs s e ex dc g j c" ..
  show "candidateAt tz hs s e ex dc g 0 c \<or>
   (scanGoesOn tz hs e dc s \<and> (\<exists>j. candidateAt tz hs (addDays tz s 1) e ex dc g j c))"
  proof (cases j)
    case 0 with j show ?thesis by simp
  next
    case (Suc i)
    with j have "scanGoesOn tz hs e dc s \<and> candidateAt tz hs (addDays tz s 1) e ex dc g i c"
      by (simp only: candidateAt_Suc)
    then show ?thesis by blast
  qed
next
  assume a: "candidateAt tz hs s e ex dc g 0 c \<or>
   (scanGoesOn tz hs e dc s \<and> (\<exists>j. candidateAt tz hs (addDays tz s 1) e ex dc g j c))"
  show "\<exists>j. candidateAt tz hs s e ex dc g j c"
  proof (rule disjE [OF a])
    assume "candidateAt tz hs s e ex dc g 0 c"
    then show ?thesis ..
  next
    assume "scanGoesOn tz hs e dc s \<and> (\<exists>j. candidateAt tz hs (addDays tz s 1) e ex dc g j c)"
    then obtain j where "scanGoesOn tz hs e dc s \<and>
      candidateAt tz hs (addDays tz s 1) e ex dc g j c" by blast
    then have "candidateAt tz hs s e ex dc g (Suc j) c" by (simp only: candidateAt_Suc)
    then show ?thesis ..
  qed
qed

lemma candidateAt_0:
  "candidateAt tz hs s e ex dc g 0 c \<longleftrightarrow>
     dateLE s e \<and> startsOnWorkday tz hs s \<and> scanGoesOn tz hs e dc s \<and>
     calculateExtraStartDate tz hs s = Some (VacationPeriod.startDate (fst c)) \<and>
     calculateExtraEndDate tz hs (addDays tz s (dc - 1)) =
       Some (VacationPeriod.endDate (fst c)) \<and>
     \<not> checkForOverlaps tz (VacationPeriod.startDate (fst c)) (VacationPeriod.endDate (fst c))
          ex g \<and>
     usedStartDate (fst c) = s \<and> usedEndDate (fst c) = addDays tz s (dc - 1) \<and>
     daysCount (fst c) = dc \<and> snd c = calculateTotalDaysOff (fst c)"
  by (simp add: candidateAt_def)

lemma scanLoop_stop:
  "\<not> dateLE cur m \<Longrightarrow> scanLoop tz hs m ex dc g cur acc = Some acc"
  by (subst scanLoop.simps) simp

lemma scanLoop_skip:
  "dateLE cur m \<Longrightarrow> \<not> startsOnWorkday tz hs cur \<Longrightarrow>
   scanLoop tz hs m ex dc g cur acc = scanLoop tz hs m ex dc g (addDays tz cur 1) acc"
  by (subst scanLoop.simps) (auto simp: startsOnWorkday_def)

lemma scanLoop_break:
  "dateLE cur m \<Longrightarrow> startsOnWorkday tz hs cur \<Longrightarrow> dateGT (addDays tz cur (dc - 1)) m \<Longrightarrow>
   scanLoop tz hs m ex dc g cur acc = Some acc"
  by (subst scanLoop.simps) (simp add: startsOnWorkday_def)

lemma scanLoop_take:
  "dateLE cur m \<Longrightarrow> startsOnWorkday tz hs cur \<Longrightarrow> \<not> dateGT (addDays tz cur (dc - 1)) m \<Longrightarrow>
   calculateExtraStartDate tz hs cur = Some es \<Longrightarrow>
   calculateExtraEndDate tz hs (addDays tz cur (dc - 1)) = Some ee \<Longrightarrow>
   p = \<lparr>startDate = es, endDate = ee, usedStartDate = cur,
        usedEndDate = addDays tz cur (dc - 1), daysCount = dc\<rparr> \<Longrightarrow>
   scanLoop tz hs m ex dc g cur acc =
     (if \<not> checkForOverlaps tz es ee ex g
      then scanLoop tz hs m ex dc g (addDays tz cur 1) (acc @ [(p, calculateTotalDaysOff p)])
      else scanLoop tz hs m ex dc g (addDays tz cur 1) acc)"
  by (subst scanLoop.simps) (simp add: startsOnWorkday_def Let_def)

lemma scanLoop_spec:
  "\<exists>cs. scanLoop tz hs m ex dc g cur acc = Some (acc @ cs) \<and>
     (\<forall>c. c \<in> set cs \<longleftrightarrow> (\<exists>j. candidateAt tz hs cur m ex dc g j c))"
proof (induction "remaining cur" arbitrary: cur acc rule: less_induct)
  case less
  show ?case
  proof (cases "dateLE cur m")
    case False
    have none: "\<And>c j. \<not> candidateAt tz hs cur m ex dc g j c"
    proof
      fix c j assume "candidateAt tz hs cur m ex dc g j c"
      then have "dateLE (scanDate tz cur j) m" by (simp add: candidateAt_def)
      then have "dateLE cur m" by (rule dateLE_scanDate)
      with False show False by simp
    qed
    have "scanLoop tz hs m ex dc g cur acc = Some (acc @ [])"
      using False by (simp add: scanLoop_stop)
    with none show ?thesis by (intro exI [of _ "[]"]) simp
  next
    case le: True
    then have "remaining (addDays tz cur 1) < remaining cur" by (rule dateLE_remaining)
    note IH = less.hyps [OF this]
    show ?thesis
    proof (cases "startsOnWorkday tz hs cur")
      case False
      have no0: "\<And>c. \<not> candidateAt tz hs cur m ex dc g 0 c"
        using False by (simp add: candidateAt_0)
      have on: "scanGoesOn tz hs m dc cur" using False by (simp add: scanGoesOn_def)
      from IH [of acc] obtain cs where cs:
        "scanLoop tz hs m ex dc g (addDays tz cur 1) acc = Some (acc @ cs)"
        "\<forall>c. c \<in> set cs \<longleftrightarrow> (\<exists>j. candidateAt tz hs (addDays tz cur 1) m ex dc g j c)"
        by blast
      have "scanLoop tz hs m ex dc g cur acc = Some (acc @ cs)"
        using le False cs(1) by (simp add: scanLoop_skip)
      moreover have "\<forall>c. c \<in> set cs \<longleftrightarrow> (\<exists>j. candidateAt tz hs cur m ex dc g j c)"
        using cs(2) no0 on by (simp add: ex_candidate_split [of tz hs cur m ex dc g])
      ultimately show ?thesis by blast
    next
      case wd: True
      show ?thesis
      proof (cases "dateGT (addDays tz cur (dc - 1)) m")
        case True
        have off: "\<not> scanGoesOn tz hs m dc cur" using wd True by (simp add: scanGoesOn_def)
        have none: "\<And>c. \<not> (\<exists>j. candidateAt tz hs cur m ex dc g j c)"
          using off by (simp add: ex_candidate_split [of tz hs cur m ex dc g] candidateAt_0)
        have "scanLoop tz hs m ex dc g cur acc = Some (acc @ [])"
          using le wd True by (simp add: scanLoop_break)
        with none show ?thesis by (intro exI [of _ "[]"]) simp
      next
        case fits: False
        have on: "scanGoesOn tz hs m dc cur" using fits by (simp add: scanGoesOn_def)
        obtain es where es: "calculateExtraStartDate tz hs cur = Some es"
          using calculateExtraStartDate_returns by blast
        obtain ee where ee: "calculateExtraEndDate tz hs (addDays tz cur (dc - 1)) = Some ee"
          using calculateExtraEndDate_returns by blast
        define p where "p = \<lparr>startDate = es, endDate = ee, usedStartDate = cur,
          usedEndDate = addDays tz cur (dc - 1), daysCount = dc\<rparr>"
        note take = scanLoop_take [OF le wd fits es ee p_def, of ex g acc]
        show ?thesis
        proof (cases "checkForOverlaps tz es ee ex g")
          case True
          have no0: "\<And>c. \<not> candidateAt tz hs cur m ex dc g 0 c"
            using True es ee by (auto simp: candidateAt_0)
          from IH [of acc] obtain cs where cs:
            "scanLoop tz hs m ex dc g (addDays tz cur 1) acc = Some (acc @ cs)"
            "\<forall>c. c \<in> set cs \<longleftrightarrow> (\<exists>j. candidateAt tz hs (addDays tz cur 1) m ex dc g j c)"
            by blast
          have "scanLoop tz hs m ex dc g cur acc = Some (acc @ cs)"
            using take True cs(1) by simp
          moreover have "\<forall>c. c \<in> set cs \<longleftrightarrow> (\<exists>j. candidateAt tz hs cur m ex dc g j c)"
            using cs(2) no0 on by (simp add: ex_candidate_split [of tz hs cur m ex dc g])
          ultimately show ?thesis by blast
        next
          case False
          define c0 where "c0 = (p, calculateTotalDaysOff p)"
          have only0: "\<And>c. candidateAt tz hs cur m ex dc g 0 c \<longleftrightarrow> c = c0"
          proof
            fix c assume "candidateAt tz hs cur m ex dc g 0 c"
            then have "fst c = p" "snd c = calculateTotalDaysOff (fst c)"
              using es ee by (simp_all add: candidateAt_0 p_def)
            then show "c = c0" by (simp add: c0_def prod_eq_iff)
          next
            fix c assume "c = c0"
            then show "candidateAt tz hs cur m ex dc g 0 c"
              using le wd on es ee False by (simp add: candidateAt_0 c0_def p_def)
          qed
          from IH [of "acc @ [c0]"] obtain cs where cs:
            "scanLoop tz hs m ex dc g (addDays tz cur 1) (acc @ [c0]) = Some ((acc @ [c0]) @ cs)"
            "\<forall>c. c \<in> set cs \<longleftrightarrow> (\<exists>j. candidateAt tz hs (addDays tz cur 1) m ex dc g j c)"
            by blast
          have 1: "scanLoop tz hs m ex dc g cur acc = Some (acc @ (c0 # cs))"
            using take False cs(1) by (simp add: c0_def)
          have 3: "\<forall>c. c \<in> set (c0 # cs) \<longleftrightarrow> (\<exists>j. candidateAt tz hs cur m ex dc g j c)"
            using cs(2) only0 on by (auto simp: ex_candidate_split [of tz hs cur m ex dc g])
          from 1 3 show ?thesis by blast
        qed
      qed
    qed
  qed
qed

section \<open>Sorting keeps the elements\<close>

lemma mset_insertSorted: "mset (insertSorted cmp x ys) = add_mset x (mset ys)"
  by (induction ys) simp_all

lemma mset_arraySort: "mset (arraySort cmp xs) = mset xs"
  by (induction xs) (simp_all add: arraySort_def mset_insertSorted)

lemma set_arraySort: "set (arraySort cmp xs) = set xs"
  using mset_arraySort [of cmp xs] by (metis set_mset_mset)

lemma length_arraySort: "length (arraySort cmp xs) = length xs"
  using mset_arraySort [of cmp xs] by (metis size_mset)

section \<open>What the search returns\<close>

lemma findBest_cases:
  "(findBestAvailablePeriods tz hs s e ex dc g = Some (Inl NoValidPeriod) \<and>
      (\<forall>j c. \<not> candidateAt tz hs s e ex dc g j c)) \<or>
   (\<exists>ps. findBestAvailablePeriods tz hs s e ex dc g = Some (Inr ps) \<and> ps \<noteq> [] \<and>
      (\<forall>p. p \<in> set ps \<longleftrightarrow>
         (\<exists>j. candidateAt tz hs s e ex dc g j (p, calculateTotalDaysOff p))))"
proof -
  obtain cs where cs: "scanLoop tz hs e ex dc g s [] = Some cs"
    "\<forall>c. c \<in> set cs \<longleftrightarrow> (\<exists>j. candidateAt tz hs s e ex dc g j c)"
    using scanLoop_spec [of tz hs e ex dc g s "[]"] by auto
  show ?thesis
  proof (cases "cs = []")
    case True
    then have "findBestAvailablePeriods tz hs s e ex dc g = Some (Inl NoValidPeriod)"
      using cs(1) by (simp add: findBestAvailablePeriods_def)
    moreover have "\<forall>j c. \<not> candidateAt tz hs s e ex dc g j c"
      using cs(2) True by auto
    ultimately show ?thesis by blast
  next
    case False
    define ps where "ps = map fst (arraySort (compareCandidates s) cs)"
    have fb: "findBestAvailablePeriods tz hs s e ex dc g = Some (Inr ps)"
      using cs(1) False by (simp add: findBestAvailablePeriods_def ps_def)
    have ne: "ps \<noteq> []" using False length_arraySort [of "compareCandidates s" cs]
      by (auto simp: ps_def)
    have mem: "\<forall>p. p \<in> set ps \<longleftrightarrow>
        (\<exists>j. candidateAt tz hs s e ex dc g j (p, calculateTotalDaysOff p))"
    proof (intro allI iffI)
      fix p assume "p \<in> set ps"
      then obtain c where c: "c \<in> set cs" "p = fst c" by (auto simp: ps_def set_arraySort)
      with cs(2) obtain j where j: "candidateAt tz hs s e ex dc g j c" by blast
      then have "snd c = calculateTotalDaysOff (fst c)" by (simp add: candidateAt_def)
      with c(2) have "c = (p, calculateTotalDaysOff p)" by (simp add: prod_eq_iff)
      with j show "\<exists>j. candidateAt tz hs s e ex dc g j (p, calculateTotalDaysOff p)" by blast
    next
      fix p assume "\<exists>j. candidateAt tz hs s e ex dc g j (p, calculateTotalDaysOff p)"
      then have "(p, calculateTotalDaysOff p) \<in> set cs" using cs(2) by blast
      then have "fst (p, calculateTotalDaysOff p) \<in> set ps"
        unfolding ps_def set_map set_arraySort by (rule imageI)
      then show "p \<in> set ps" by simp
    qed
    from fb ne mem show ?thesis by blast
  qed
qed

lemma findBest_returns: "\<exists>r. findBestAvailablePeriods tz hs s e ex dc g = Some r"
  using findBest_cases [of tz hs s e ex dc g] by blast

lemma findBest_mem:
  assumes "findBestAvailablePeriods tz hs s e ex dc g = Some (Inr ps)"
  shows "p \<in> set ps \<longleftrightarrow> (\<exists>j. candidateAt tz hs s e ex dc g j (p, calculateTotalDaysOff p))"
  using findBest_cases [of tz hs s e ex dc g] assms by auto

lemma periodsFor_mem:
  "p \<in> set (periodsFor tz hs s e v) \<longleftrightarrow>
   (\<exists>j. candidateAt tz hs s e [] v 0 j (p, calculateTotalDaysOff p))"
  using findBest_cases [of tz hs s e "[]" v 0] by (auto simp: periodsFor_def)

lemma checkForOverlaps_Nil: "\<not> checkForOverlaps tz a b [] g"
  by (simp add: checkForOverlaps_def)

lemma findBest_starts:
  assumes fb: "findBestAvailablePeriods tz hs s e ex dc g = Some (Inr ps)"
  shows "d \<in> usedStartDate ` set ps \<longleftrightarrow>
         fittingStart tz hs s e dc d \<and>
         (\<exists>es ee. calculateExtraStartDate tz hs d = Some es \<and>
                  calculateExtraEndDate tz hs (addDays tz d (dc - 1)) = Some ee \<and>
                  \<not> checkForOverlaps tz es ee ex g)"
proof
  assume "d \<in> usedStartDate ` set ps"
  then obtain p where p: "p \<in> set ps" "d = usedStartDate p" by blast
  with findBest_mem [OF fb, of p] obtain j where
    "candidateAt tz hs s e ex dc g j (p, calculateTotalDaysOff p)" by blast
  then have c: "dateLE (scanDate tz s j) e" "startsOnWorkday tz hs (scanDate tz s j)"
    "\<forall>i\<le>j. scanGoesOn tz hs e dc (scanDate tz s i)"
    "calculateExtraStartDate tz hs (scanDate tz s j) = Some (VacationPeriod.startDate p)"
    "calculateExtraEndDate tz hs (addDays tz (scanDate tz s j) (dc - 1)) =
       Some (VacationPeriod.endDate p)"
    "\<not> checkForOverlaps tz (VacationPeriod.startDate p) (VacationPeriod.endDate p) ex g"
    "usedStartDate p = scanDate tz s j"
    by (simp_all add: candidateAt_def)
  from c(7) p(2) have d: "d = scanDate tz s j" by simp
  have "fittingStart tz hs s e dc d" unfolding fittingStart_def using d c(1,2,3) by blast
  moreover have "\<exists>es ee. calculateExtraStartDate tz hs d = Some es \<and>
                  calculateExtraEndDate tz hs (addDays tz d (dc - 1)) = Some ee \<and>
                  \<not> checkForOverlaps tz es ee ex g"
    using c(4,5,6) unfolding d by blast
  ultimately show "fittingStart tz hs s e dc d \<and>
         (\<exists>es ee. calculateExtraStartDate tz hs d = Some es \<and>
                  calculateExtraEndDate tz hs (addDays tz d (dc - 1)) = Some ee \<and>
                  \<not> checkForOverlaps tz es ee ex g)" ..
next
  assume a: "fittingStart tz hs s e dc d \<and>
         (\<exists>es ee. calculateExtraStartDate tz hs d = Some es \<and>
                  calculateExtraEndDate tz hs (addDays tz d (dc - 1)) = Some ee \<and>
                  \<not> checkForOverlaps tz es ee ex g)"
  then obtain j where j: "d = scanDate tz s j" "dateLE d e" "startsOnWorkday tz hs d"
    "\<forall>i\<le>j. scanGoesOn tz hs e dc (scanDate tz s i)"
    unfolding fittingStart_def by blast
  from a obtain es ee where x: "calculateExtraStartDate tz hs d = Some es"
    "calculateExtraEndDate tz hs (addDays tz d (dc - 1)) = Some ee"
    "\<not> checkForOverlaps tz es ee ex g" by blast
  define p where "p = \<lparr>startDate = es, endDate = ee, usedStartDate = d,
      usedEndDate = addDays tz d (dc - 1), daysCount = dc\<rparr>"
  have "candidateAt tz hs s e ex dc g j (p, calculateTotalDaysOff p)"
    using j x by (simp add: candidateAt_def p_def)
  with findBest_mem [OF fb, of p] have "p \<in> set ps" by blast
  moreover have "usedStartDate p = d" by (simp add: p_def)
  ultimately show "d \<in> usedStartDate ` set ps" by force
qed

lemma fitting_in_periodsFor:
  assumes "fittingStart tz hs s e dc d"
  shows "d \<in> usedStartDate ` set (periodsFor tz hs s e dc)"
proof -
  obtain es where es: "calculateExtraStartDate tz hs d = Some es"
    using calculateExtraStartDate_returns by blast
  obtain ee where ee: "calculateExtraEndDate tz hs (addDays tz d (dc - 1)) = Some ee"
    using calculateExtraEndDate_returns by blast
  from assms obtain j where j: "d = scanDate tz s j" "dateLE d e" "startsOnWorkday tz hs d"
    "\<forall>i\<le>j. scanGoesOn tz hs e dc (scanDate tz s i)"
    unfolding fittingStart_def by blast
  define p where "p = \<lparr>startDate = es, endDate = ee, usedStartDate = d,
      usedEndDate = addDays tz d (dc - 1), daysCount = dc\<rparr>"
  have "candidateAt tz hs s e [] dc 0 j (p, calculateTotalDaysOff p)"
    using j es ee by (simp add: candidateAt_def p_def checkForOverlaps_Nil)
  then have "p \<in> set (periodsFor tz hs s e dc)" using periodsFor_mem by blast
  moreover have "usedStartDate p = d" by (simp add: p_def)
  ultimately show ?thesis by force
qed

section \<open>The sweep over the numbers of vacation days\<close>

lemma increment_exact:
  assumes "- (2 ^ 53) \<le> v" "v < 2 ^ 53"
  shows "increment v = v + 1"
proof -
  have "\<bar>v + 1\<bar> \<le> 2 ^ 53" using assms by linarith
  then show ?thesis by (simp only: increment_def Let_def if_True)
qed

lemma sweepLoop_bounded:
  "mx + 1 - v \<le> int k \<Longrightarrow> - (2 ^ 53) \<le> v \<Longrightarrow> mx < 2 ^ 53 \<Longrightarrow>
   sweepLoop tz hs s e mx v acc = Some (acc @ concat (map (periodsFor tz hs s e) [v..mx]))"
proof (induction k arbitrary: v acc)
  case 0
  then have "\<not> v \<le> mx" by simp
  then show ?case by (subst sweepLoop.simps) simp
next
  case (Suc k)
  show ?case
  proof (cases "v \<le> mx")
    case False
    then show ?thesis by (subst sweepLoop.simps) simp
  next
    case True
    have inc: "increment v = v + 1" using True Suc.prems by (intro increment_exact) simp_all
    have "mx + 1 - (v + 1) \<le> int k" "- (2 ^ 53) \<le> v + 1" using Suc.prems by simp_all
    note IH = Suc.IH [OF this Suc.prems(3)]
    have up: "[v..mx] = v # [v + 1..mx]" using True by (rule upto_rec1)
    obtain r where r: "findBestAvailablePeriods tz hs s e [] v 0 = Some r"
      using findBest_returns by blast
    show ?thesis
    proof (cases r)
      case (Inl err)
      then have "periodsFor tz hs s e v = []" using r by (simp add: periodsFor_def)
      moreover have "sweepLoop tz hs s e mx v acc = sweepLoop tz hs s e mx (v + 1) acc"
        using True r Inl inc by (subst sweepLoop.simps) simp
      ultimately show ?thesis using IH [of acc] up by simp
    next
      case (Inr ps)
      then have "periodsFor tz hs s e v = ps" using r by (simp add: periodsFor_def)
      moreover have "sweepLoop tz hs s e mx v acc = sweepLoop tz hs s e mx (v + 1) (acc @ ps)"
        using True r Inr inc by (subst sweepLoop.simps) simp
      ultimately show ?thesis using IH [of "acc @ ps"] up by simp
    qed
  qed
qed

lemma sweepLoop_eq:
  "- (2 ^ 53) \<le> v \<Longrightarrow> mx < 2 ^ 53 \<Longrightarrow>
   sweepLoop tz hs s e mx v acc = Some (acc @ concat (map (periodsFor tz hs s e) [v..mx]))"
proof -
  have "mx + 1 - v \<le> int (nat (mx + 1 - v))" by simp
  then show "- (2 ^ 53) \<le> v \<Longrightarrow> mx < 2 ^ 53 \<Longrightarrow>
   sweepLoop tz hs s e mx v acc = Some (acc @ concat (map (periodsFor tz hs s e) [v..mx]))"
    by (rule sweepLoop_bounded)
qed

lemma handleCalculate_eq:
  assumes "- (2 ^ 53) \<le> minVacationDays fd" "maxVacationDays fd < 2 ^ 53"
  shows "handleCalculate tz hs fd =
     Some (arraySort comparePeriods
       (filter (\<lambda>p. numGt (numSub (calculateTotalDaysOff p) (Some (daysCount p))) (Some 0))
         (concat (map (periodsFor tz hs (FormData.startDate fd) (FormData.endDate fd))
            [minVacationDays fd..maxVacationDays fd]))))"
  using assms by (simp add: handleCalculate_def sweepLoop_eq Let_def)

section \<open>A sweep that does not end\<close>

text \<open>The counter of the sweep stays at \<open>2^53 = 9007199254740992\<close>: a sweep that
  starts there, or gets there, with a maximum that is not smaller never ends.\<close>

lemma increment_stalls: "increment 9007199254740992 = 9007199254740992"
  by (simp add: increment_def Let_def)

lemma sweepLoop_Some_not_stalled:
  assumes "sweepLoop tz hs s e mx v acc = Some y"
  shows "\<not> (v = 9007199254740992 \<and> 9007199254740992 \<le> mx)"
proof (rule sweepLoop.raw_induct
    [where P = "\<lambda>tz hs s e mx v acc y. \<not> (v = 9007199254740992 \<and> 9007199254740992 \<le> mx)",
     OF _ assms])
  fix sweep tz hs s e mx v acc y
  assume IH: "\<And>tz' hs' s' e' mx' v' acc' y'. sweep tz' hs' s' e' mx' v' acc' = Some y' \<Longrightarrow>
      \<not> (v' = 9007199254740992 \<and> 9007199254740992 \<le> mx')"
    and body: "(if v \<le> mx
      then case findBestAvailablePeriods tz hs s e [] v 0 of
           None \<Rightarrow> None
           | Some (Inl err) \<Rightarrow> sweep tz hs s e mx (increment v) acc
           | Some (Inr periods) \<Rightarrow> sweep tz hs s e mx (increment v) (acc @ periods)
      else Some acc) = Some y"
  show "\<not> (v = 9007199254740992 \<and> 9007199254740992 \<le> mx)"
  proof
    assume a: "v = 9007199254740992 \<and> 9007199254740992 \<le> mx"
    then have le: "v \<le> mx" and inc: "increment v = v" by (simp_all add: increment_stalls)
    from body le inc obtain acc' where "sweep tz hs s e mx v acc' = Some y"
      by (auto split: option.splits sum.splits)
    from IH [OF this] a show False by blast
  qed
qed

lemma sweepLoop_stalls:
  "9007199254740992 \<le> mx \<Longrightarrow> sweepLoop tz hs s e mx 9007199254740992 acc = None"
  using sweepLoop_Some_not_stalled [of tz hs s e mx 9007199254740992 acc]
  by (cases "sweepLoop tz hs s e mx 9007199254740992 acc") auto

lemma handleCalculate_stalls:
  assumes "minVacationDays fd = 2 ^ 53" "2 ^ 53 \<le> maxVacationDays fd"
  shows "handleCalculate tz hs fd = None"
proof -
  have "minVacationDays fd = 9007199254740992" "9007199254740992 \<le> maxVacationDays fd"
    using assms by simp_all
  then show ?thesis by (simp add: handleCalculate_def sweepLoop_stalls)
qed

section \<open>The overlap check as an intersection\<close>

lemma interval_meet:
  "a \<le> b \<Longrightarrow> c \<le> d \<Longrightarrow> {a..b} \<inter> {c..d} \<noteq> {} \<longleftrightarrow> a \<le> d \<and> c \<le> (b::int)"
  by (auto simp: Int_atLeastAtMost)

lemma ranges_meet:
  assumes "dateLE a b" "dateLE c d"
  shows "timeRange a b \<inter> timeRange c d \<noteq> {} \<longleftrightarrow> dateLE a d \<and> dateLE c b"
proof -
  from assms obtain a' b' c' d' where v: "a = TimeValue a'" "b = TimeValue b'"
    "c = TimeValue c'" "d = TimeValue d'" "a' \<le> b'" "c' \<le> d'"
    by (cases a; cases b; cases c; cases d) (simp_all add: dateLE_def)
  show ?thesis unfolding v using interval_meet [OF v(5,6)] by (simp add: timeRange_def dateLE_def)
qed

lemma checkForOverlaps_iff:
  assumes "dateLE (addDays tz startDt (- g)) (addDays tz endDt g)"
    and "\<forall>p \<in> set ex. dateLE (VacationPeriod.startDate p) (VacationPeriod.endDate p)"
  shows "checkForOverlaps tz startDt endDt ex g \<longleftrightarrow>
     (\<exists>p \<in> set ex. timeRange (addDays tz startDt (- g)) (addDays tz endDt g) \<inter>
                    timeRange (VacationPeriod.startDate p) (VacationPeriod.endDate p) \<noteq> {})"
proof -
  have "\<And>p. p \<in> set ex \<Longrightarrow>
      (timeRange (addDays tz startDt (- g)) (addDays tz endDt g) \<inter>
         timeRange (VacationPeriod.startDate p) (VacationPeriod.endDate p) \<noteq> {}) \<longleftrightarrow>
      dateLE (addDays tz startDt (- g)) (VacationPeriod.endDate p) \<and>
      dateLE (VacationPeriod.startDate p) (addDays tz endDt g)"
    using assms by (intro ranges_meet) simp_all
  then show ?thesis by (simp add: checkForOverlaps_def list_ex_iff Let_def)
qed

lemma buffered_window_ordered:
  assumes "a \<le> b" "0 < g" "addDays tz (TimeValue a) (- g) = TimeValue x"
    "addDays tz (TimeValue b) g = TimeValue y"
  shows "x \<le> y"
proof -
  have "x < a" using assms(2,3) by (intro addDays_earlier [of "- g" tz a x]) simp_all
  moreover have "b < y" using assms(2,4) by (intro addDays_later [of g tz b y]) simp_all
  ultimately show ?thesis using assms(1) by simp
qed

lemma scenarioA_scanDates:
  "scanDate utcZone (TimeValue 1735689600000) 0 = TimeValue 1735689600000"
  "scanDate utcZone (TimeValue 1735689600000) 1 = TimeValue 1735776000000"
  "scanDate utcZone (TimeValue 1735689600000) 2 = TimeValue 1735862400000"
  "scanDate utcZone (TimeValue 1735689600000) 3 = TimeValue 1735948800000"
  "scanDate utcZone (TimeValue 1735689600000) 4 = TimeValue 1736035200000"
  "scanDate utcZone (TimeValue 1735689600000) 5 = TimeValue 1736121600000"
  by (simp_all add: eval_nat_numeral addDays_def TimeClip_def zone_eval msPerDay_def
      maxTimeValue_def)

lemma le_5_cases: "i \<le> (5::nat) \<Longrightarrow> i = 0 \<or> i = 1 \<or> i = 2 \<or> i = 3 \<or> i = 4 \<or> i = 5"
  by arith

lemma scenarioA_scan_goes_on:
  "\<forall>i\<le>5. scanGoesOn utcZone scenarioA_holidays (TimeValue 1767139200000) 5
      (scanDate utcZone (TimeValue 1735689600000) i)"
proof (intro allI impI)
  fix i :: nat assume "i \<le> 5"
  then have "i = 0 \<or> i = 1 \<or> i = 2 \<or> i = 3 \<or> i = 4 \<or> i = 5" by (rule le_5_cases)
  then show "scanGoesOn utcZone scenarioA_holidays (TimeValue 1767139200000) 5
      (scanDate utcZone (TimeValue 1735689600000) i)"
    by (elim disjE) (simp_all add: scenarioA_scanDates scanGoesOn_def addDays_def TimeClip_def
        zone_eval msPerDay_def maxTimeValue_def dateGT_def dateLT_def)
qed

lemma scenarioA_candidate:
  "candidateAt utcZone scenarioA_holidays (mkDate utcZone 2025 1 1 0)
     (mkDate utcZone 2025 12 31 0) [] 5 0 5
     (scenarioA_period, calculateTotalDaysOff scenarioA_period)"
proof -
  have start: "calculateExtraStartDate utcZone scenarioA_holidays (TimeValue 1736121600000) =
      Some (TimeValue 1735948800000)"
    using scenarioA_start by (simp add: mkDate_values)
  have "addDays utcZone (TimeValue 1736121600000) (5 - 1) = TimeValue 1736467200000"
    by (simp add: addDays_def TimeClip_def zone_eval msPerDay_def maxTimeValue_def)
  moreover have "calculateExtraEndDate utcZone scenarioA_holidays (TimeValue 1736467200000) =
      Some (TimeValue 1736640000000)"
    using scenarioA_end by (simp add: mkDate_values)
  moreover have "startsOnWorkday utcZone scenarioA_holidays (TimeValue 1736121600000)"
    by (simp add: startsOnWorkday_def scenarioA_holidays_def mkDate_values date_eval)
  ultimately show ?thesis
    using start scenarioA_scan_goes_on
    by (simp add: candidateAt_def mkDate_values scenarioA_scanDates scenarioA_period_def
        checkForOverlaps_Nil dateLE_def)
qed

lemma scenarioA_found:
  "\<exists>ps. findBestAvailablePeriods utcZone scenarioA_holidays (mkDate utcZone 2025 1 1 0)
          (mkDate utcZone 2025 12 31 0) [] 5 0 = Some (Inr ps) \<and> scenarioA_period \<in> set ps"
  using findBest_cases [of utcZone scenarioA_holidays "mkDate utcZone 2025 1 1 0"
      "mkDate utcZone 2025 12 31 0" "[]" 5 0] scenarioA_candidate
  by blast

lemma weekForm_findBest:
  "findBestAvailablePeriods utcZone [] (mkDate utcZone 2025 1 6 0) (mkDate utcZone 2025 1 10 0)
     [] 5 0 = Some (Inr [scenarioA_period])"
  by (simp add: scenarioA_period_def mkDate_values engine_eval date_eval)

lemma weekForm_fitting:
  "fittingStart utcZone [] (mkDate utcZone 2025 1 6 0) (mkDate utcZone 2025 1 10 0) 5
     (mkDate utcZone 2025 1 6 0)"
  unfolding fittingStart_def
  by (rule exI [of _ 0])
     (simp add: scanGoesOn_def startsOnWorkday_def mkDate_values date_eval)

lemma weekForm_overlap:
  "checkForOverlaps utcZone (mkDate utcZone 2025 1 4 0) (mkDate utcZone 2025 1 12 0)
     [scenarioD_second] 0"
  by (simp add: checkForOverlaps_def scenarioD_second_def mkDate_values addDays_def
      TimeClip_def zone_eval msPerDay_def maxTimeValue_def dateLE_def)

lemma weekForm_rejected:
  "findBestAvailablePeriods utcZone [] (mkDate utcZone 2025 1 6 0) (mkDate utcZone 2025 1 10 0)
     [scenarioD_second] 5 0 = Some (Inl NoValidPeriod)"
proof -
  let ?m = "TimeValue 1736467200000"
  have s1: "calculateExtraStartDate utcZone [] (TimeValue 1736121600000) =
      Some (TimeValue 1735948800000)"
    by (simp add: calculateExtraStartDate_def extraStartLoop.simps date_eval)
  have e1: "calculateExtraEndDate utcZone [] (addDays utcZone (TimeValue 1736121600000) (5 - 1)) =
      Some (TimeValue 1736640000000)"
    by (simp add: calculateExtraEndDate_def extraEndLoop.simps date_eval)
  have ov: "checkForOverlaps utcZone (TimeValue 1735948800000) (TimeValue 1736640000000)
     [scenarioD_second] 0"
    using weekForm_overlap by (simp add: mkDate_values)
  have "scanLoop utcZone [] ?m [scenarioD_second] 5 0 (TimeValue 1736121600000) [] =
      scanLoop utcZone [] ?m [scenarioD_second] 5 0 (addDays utcZone (TimeValue 1736121600000) 1) []"
    using ov by (subst scanLoop_take [OF _ _ _ s1 e1 refl])
      (simp_all add: startsOnWorkday_def date_eval)
  also have "\<dots> = Some []"
    by (rule scanLoop_break) (simp_all add: startsOnWorkday_def date_eval)
  finally show ?thesis by (simp add: findBestAvailablePeriods_def mkDate_values)
qed

section \<open>The window expansion attaches the whole adjacent run\<close>



section \<open>The extended window is not clipped to the horizon\<close>

lemma scenarioA_total: "calculateTotalDaysOff scenarioA_period = Some 9"
  by (simp add: calculateTotalDaysOff_def scenarioA_period_def mkDate_values getTime_def
      numSub_def)

lemma scenarioA_daysCount: "daysCount scenarioA_period = 5"
  by (simp add: scenarioA_period_def)

lemma scenarioA_extraDays: "extraDays utcZone scenarioA_period = Some 4"
  by (simp add: extraDays_def scenarioA_period_def mkDate_values localDay_def zone_eval Day_def
      msPerDay_def)

text \<open>
  Claim C10. For the valid input \<open>weekForm\<close>, whose horizon is the five days from
  Monday 2025-01-06 to Friday 2025-01-10, the engine returns a period whose core window
  lies in the horizon, whose extended start is before the start of the horizon and whose
  extended end is after the end of the horizon; the four days outside the horizon count
  in its 9 days off and are its 4 extra days.
\<close>

theorem extended_window_not_clipped:
  "\<not> hasErrors weekForm \<and>
   handleCalculate utcZone [] weekForm = Some [scenarioA_period] \<and>
   dateLT (VacationPeriod.startDate scenarioA_period) (FormData.startDate weekForm) \<and>
   dateLT (FormData.endDate weekForm) (VacationPeriod.endDate scenarioA_period) \<and>
   dateLE (FormData.startDate weekForm) (usedStartDate scenarioA_period) \<and>
   dateLE (usedEndDate scenarioA_period) (FormData.endDate weekForm) \<and>
   FormData.startDate weekForm = TimeValue 1736121600000 \<and>
   FormData.endDate weekForm = TimeValue 1736467200000 \<and>
   (1736467200000 - 1736121600000) div msPerDay + 1 = 5 \<and>
   calculateTotalDaysOff scenarioA_period = Some 9 \<and>
   numSub (calculateTotalDaysOff scenarioA_period) (Some (daysCount scenarioA_period)) = Some 4 \<and>
   extraDays utcZone scenarioA_period = Some 4"
proof -
  have "\<not> hasErrors weekForm"
    by (simp add: hasErrors_def weekForm_def mkDate_values dateLE_def)
  moreover have "dateLT (VacationPeriod.startDate scenarioA_period) (FormData.startDate weekForm)"
    "dateLT (FormData.endDate weekForm) (VacationPeriod.endDate scenarioA_period)"
    "dateLE (FormData.startDate weekForm) (usedStartDate scenarioA_period)"
    "dateLE (usedEndDate scenarioA_period) (FormData.endDate weekForm)"
    "FormData.startDate weekForm = TimeValue 1736121600000"
    "FormData.endDate weekForm = TimeValue 1736467200000"
    "(1736467200000 - 1736121600000) div msPerDay + 1 = 5"
    by (simp_all add: weekForm_def scenarioA_period_def mkDate_values dateLE_def dateLT_def
        msPerDay_def)
  moreover have "numSub (calculateTotalDaysOff scenarioA_period)
      (Some (daysCount scenarioA_period)) = Some 4"
    unfolding scenarioA_total scenarioA_daysCount by (simp add: numSub_def)
  ultimately show ?thesis
    using weekForm_result scenarioA_total scenarioA_extraDays by simp
qed

section \<open>Scenario A\<close>

text \<open>
  Claim C7. In scenario A the holiday list built from the provider holds the one holiday
  2025-01-01, a Wednesday; the core window runs from Monday 2025-01-06 to Friday
  2025-01-10; the expansion gives the extended start 2025-01-04 and the extended end
  2025-01-12; the period has 9 days off in total, 4 of them extra, by the count of the
  engine and by the count of calendar days. The search over the year 2025 with five
  vacation days returns this period.
\<close>

theorem scenario_A_expansion:
  "holidays utcZone scenarioA_provider scenarioA_form = scenarioA_holidays \<and>
   getDay utcZone (mkDate utcZone 2025 1 1 0) = Some 3 \<and>
   getDay utcZone (mkDate utcZone 2025 1 6 0) = Some 1 \<and>
   getDay utcZone (mkDate utcZone 2025 1 10 0) = Some 5 \<and>
   calculateExtraStartDate utcZone scenarioA_holidays (mkDate utcZone 2025 1 6 0) =
     Some (mkDate utcZone 2025 1 4 0) \<and>
   calculateExtraEndDate utcZone scenarioA_holidays (mkDate utcZone 2025 1 10 0) =
     Some (mkDate utcZone 2025 1 12 0) \<and>
   calculateTotalDaysOff scenarioA_period = Some 9 \<and>
   numSub (calculateTotalDaysOff scenarioA_period) (Some (daysCount scenarioA_period)) = Some 4 \<and>
   extraDays utcZone scenarioA_period = Some 4 \<and>
   VacationPeriod.startDate scenarioA_period = mkDate utcZone 2025 1 4 0 \<and>
   VacationPeriod.endDate scenarioA_period = mkDate utcZone 2025 1 12 0 \<and>
   usedStartDate scenarioA_period = mkDate utcZone 2025 1 6 0 \<and>
   usedEndDate scenarioA_period = mkDate utcZone 2025 1 10 0 \<and>
   (\<exists>ps. findBestAvailablePeriods utcZone scenarioA_holidays (FormData.startDate scenarioA_form)
           (FormData.endDate scenarioA_form) [] 5 0 = Some (Inr ps) \<and>
         scenarioA_period \<in> set ps)"
proof -
  have "FormData.startDate scenarioA_form = mkDate utcZone 2025 1 1 0"
    "FormData.endDate scenarioA_form = mkDate utcZone 2025 12 31 0"
    by (simp_all add: scenarioA_form_def)
  with scenarioA_found
  have "\<exists>ps. findBestAvailablePeriods utcZone scenarioA_holidays
           (FormData.startDate scenarioA_form) (FormData.endDate scenarioA_form) [] 5 0 =
           Some (Inr ps) \<and> scenarioA_period \<in> set ps" by simp
  moreover have "VacationPeriod.startDate scenarioA_period = mkDate utcZone 2025 1 4 0"
    "VacationPeriod.endDate scenarioA_period = mkDate utcZone 2025 1 12 0"
    "usedStartDate scenarioA_period = mkDate utcZone 2025 1 6 0"
    "usedEndDate scenarioA_period = mkDate utcZone 2025 1 10 0"
    by (simp_all add: scenarioA_period_def)
  moreover
  have "getDay utcZone (mkDate utcZone 2025 1 1 0) = Some 3"
    "getDay utcZone (mkDate utcZone 2025 1 6 0) = Some 1"
    "getDay utcZone (mkDate utcZone 2025 1 10 0) = Some 5"
    by (simp_all add: mkDate_values getDay_def WeekDay_def Day_def msPerDay_def zone_eval)
  moreover have "numSub (calculateTotalDaysOff scenarioA_period)
      (Some (daysCount scenarioA_period)) = Some 4"
    unfolding scenarioA_total scenarioA_daysCount by (simp add: numSub_def)
  ultimately show ?thesis
    using scenarioA_holidays_built scenarioA_start scenarioA_end scenarioA_total
      scenarioA_extraDays by simp
qed

section \<open>The overlap check\<close>

text \<open>
  Claim C8. When the window widened by the gap on both sides is a window, its start not
  after its end, and so is every existing period, the overlap check holds exactly when
  the widened window meets the window of an existing period. The widened window is a
  window when the gap is positive, the start is not after the end and the widened dates
  are valid. The search keeps, of the start dates for which it builds a core window,
  exactly those whose extended window the check does not reject. With no existing
  periods the check never holds; the sweep of \<open>handleCalculate\<close> searches with no
  existing periods and gap zero, whenever the numbers of vacation days are below
  \<open>2^53\<close>, so every such start date has a period in the contribution of its number
  of vacation days.
\<close>

theorem overlap_check_rejects_intersecting:
  "(dateLE (addDays tz startDt (- g)) (addDays tz endDt g) \<and>
      (\<forall>p \<in> set ex. dateLE (VacationPeriod.startDate p) (VacationPeriod.endDate p)) \<longrightarrow>
      (checkForOverlaps tz startDt endDt ex g \<longleftrightarrow>
         (\<exists>p \<in> set ex. timeRange (addDays tz startDt (- g)) (addDays tz endDt g) \<inter>
                         timeRange (VacationPeriod.startDate p) (VacationPeriod.endDate p)
                         \<noteq> {}))) \<and>
   (\<forall>a b x y. a \<le> b \<and> 0 < g \<and> addDays tz (TimeValue a) (- g) = TimeValue x \<and>
      addDays tz (TimeValue b) g = TimeValue y \<longrightarrow>
      dateLE (addDays tz (TimeValue a) (- g)) (addDays tz (TimeValue b) g)) \<and>
   (\<forall>ps. findBestAvailablePeriods tz hs s e ex dc g = Some (Inr ps) \<longrightarrow>
      (\<forall>d. d \<in> usedStartDate ` set ps \<longleftrightarrow>
         fittingStart tz hs s e dc d \<and>
         (\<exists>es ee. calculateExtraStartDate tz hs d = Some es \<and>
                  calculateExtraEndDate tz hs (addDays tz d (dc - 1)) = Some ee \<and>
                  \<not> checkForOverlaps tz es ee ex g))) \<and>
   \<not> checkForOverlaps tz startDt endDt [] 0 \<and>
   periodsFor tz hs s e dc =
     (case findBestAvailablePeriods tz hs s e [] dc 0 of
        Some (Inr periods) \<Rightarrow> periods
      | _ \<Rightarrow> []) \<and>
   (- (2 ^ 53) \<le> minVacationDays fd \<and> maxVacationDays fd < 2 ^ 53 \<longrightarrow>
    handleCalculate tz hs fd =
     Some (arraySort comparePeriods
       (filter (\<lambda>p. numGt (numSub (calculateTotalDaysOff p) (Some (daysCount p))) (Some 0))
         (concat (map (periodsFor tz hs (FormData.startDate fd) (FormData.endDate fd))
            [minVacationDays fd..maxVacationDays fd]))))) \<and>
   (\<forall>d. fittingStart tz hs s e dc d \<longrightarrow> d \<in> usedStartDate ` set (periodsFor tz hs s e dc))"
proof (intro conjI)
  show "dateLE (addDays tz startDt (- g)) (addDays tz endDt g) \<and>
      (\<forall>p \<in> set ex. dateLE (VacationPeriod.startDate p) (VacationPeriod.endDate p)) \<longrightarrow>
      (checkForOverlaps tz startDt endDt ex g \<longleftrightarrow>
         (\<exists>p \<in> set ex. timeRange (addDays tz startDt (- g)) (addDays tz endDt g) \<inter>
                         timeRange (VacationPeriod.startDate p) (VacationPeriod.endDate p)
                         \<noteq> {}))"
    using checkForOverlaps_iff [of tz startDt g endDt ex] by blast
  show "\<forall>a b x y. a \<le> b \<and> 0 < g \<and> addDays tz (TimeValue a) (- g) = TimeValue x \<and>
      addDays tz (TimeValue b) g = TimeValue y \<longrightarrow>
      dateLE (addDays tz (TimeValue a) (- g)) (addDays tz (TimeValue b) g)"
  proof (intro allI impI)
    fix a b x y
    assume h: "a \<le> b \<and> 0 < g \<and> addDays tz (TimeValue a) (- g) = TimeValue x \<and>
      addDays tz (TimeValue b) g = TimeValue y"
    then have "x \<le> y" using buffered_window_ordered [of a b g tz x y] by blast
    with h show "dateLE (addDays tz (TimeValue a) (- g)) (addDays tz (TimeValue b) g)"
      by (simp add: dateLE_def)
  qed
  show "\<forall>ps. findBestAvailablePeriods tz hs s e ex dc g = Some (Inr ps) \<longrightarrow>
      (\<forall>d. d \<in> usedStartDate ` set ps \<longleftrightarrow>
         fittingStart tz hs s e dc d \<and>
         (\<exists>es ee. calculateExtraStartDate tz hs d = Some es \<and>
                  calculateExtraEndDate tz hs (addDays tz d (dc - 1)) = Some ee \<and>
                  \<not> checkForOverlaps tz es ee ex g))"
    using findBest_starts [of tz hs s e ex dc g] by blast
  show "\<not> checkForOverlaps tz startDt endDt [] 0" by (rule checkForOverlaps_Nil)
  show "periodsFor tz hs s e dc =
     (case findBestAvailablePeriods tz hs s e [] dc 0 of
        Some (Inr periods) \<Rightarrow> periods
      | _ \<Rightarrow> [])" by (simp add: periodsFor_def)
  show "- (2 ^ 53) \<le> minVacationDays fd \<and> maxVacationDays fd < 2 ^ 53 \<longrightarrow>
    handleCalculate tz hs fd =
     Some (arraySort comparePeriods
       (filter (\<lambda>p. numGt (numSub (calculateTotalDaysOff p) (Some (daysCount p))) (Some 0))
         (concat (map (periodsFor tz hs (FormData.startDate fd) (FormData.endDate fd))
            [minVacationDays fd..maxVacationDays fd]))))"
    using handleCalculate_eq [of fd tz hs] by blast
  show "\<forall>d. fittingStart tz hs s e dc d \<longrightarrow> d \<in> usedStartDate ` set (periodsFor tz hs s e dc)"
    using fitting_in_periodsFor [of tz hs s e dc] by blast
qed

theorem overlap_check_rejects_intersecting_witness:
  "dateLE (addDays utcZone (mkDate utcZone 2025 1 4 0) (- 0))
     (addDays utcZone (mkDate utcZone 2025 1 12 0) 0) \<and>
   dateLE (VacationPeriod.startDate scenarioD_second) (VacationPeriod.endDate scenarioD_second) \<and>
   checkForOverlaps utcZone (mkDate utcZone 2025 1 4 0) (mkDate utcZone 2025 1 12 0)
     [scenarioD_second] 0 \<and>
   timeRange (addDays utcZone (mkDate utcZone 2025 1 4 0) (- 0))
       (addDays utcZone (mkDate utcZone 2025 1 12 0) 0) \<inter>
     timeRange (VacationPeriod.startDate scenarioD_second)
       (VacationPeriod.endDate scenarioD_second) \<noteq> {} \<and>
   findBestAvailablePeriods utcZone [] (mkDate utcZone 2025 1 6 0) (mkDate utcZone 2025 1 10 0)
     [scenarioD_second] 5 0 = Some (Inl NoValidPeriod) \<and>
   findBestAvailablePeriods utcZone [] (mkDate utcZone 2025 1 6 0) (mkDate utcZone 2025 1 10 0)
     [] 5 0 = Some (Inr [scenarioA_period]) \<and>
   (\<exists>es ee. calculateExtraStartDate utcZone [] (mkDate utcZone 2025 1 6 0) = Some es \<and>
      calculateExtraEndDate utcZone [] (addDays utcZone (mkDate utcZone 2025 1 6 0) (5 - 1)) =
        Some ee \<and>
      \<not> checkForOverlaps utcZone es ee [] 0) \<and>
   startsOnWorkday utcZone [] (mkDate utcZone 2025 1 6 0) \<and>
   fittingStart utcZone [] (mkDate utcZone 2025 1 6 0) (mkDate utcZone 2025 1 10 0) 5
     (mkDate utcZone 2025 1 6 0) \<and>
   mkDate utcZone 2025 1 6 0 \<in>
     usedStartDate ` set (periodsFor utcZone [] (mkDate utcZone 2025 1 6 0)
       (mkDate utcZone 2025 1 10 0) 5) \<and>
   - (2 ^ 53) \<le> minVacationDays weekForm \<and> maxVacationDays weekForm < 2 ^ 53 \<and>
   handleCalculate utcZone [] weekForm =
     Some (arraySort comparePeriods
       (filter (\<lambda>p. numGt (numSub (calculateTotalDaysOff p) (Some (daysCount p))) (Some 0))
         (concat (map (periodsFor utcZone [] (FormData.startDate weekForm)
            (FormData.endDate weekForm)) [minVacationDays weekForm..maxVacationDays weekForm])))) \<and>
   dateLE (addDays utcZone (TimeValue 1735948800000) (- 1))
     (addDays utcZone (TimeValue 1736640000000) 1)"
proof -
  let ?s = "mkDate utcZone 2025 1 6 0" and ?e = "mkDate utcZone 2025 1 10 0"
  note inst = overlap_check_rejects_intersecting
    [of utcZone "mkDate utcZone 2025 1 4 0" 0 "mkDate utcZone 2025 1 12 0" "[scenarioD_second]"
       "[]" ?s ?e 5 weekForm]
  have h1: "dateLE (addDays utcZone (mkDate utcZone 2025 1 4 0) (- 0))
     (addDays utcZone (mkDate utcZone 2025 1 12 0) 0)"
    by (simp add: mkDate_values addDays_def TimeClip_def zone_eval maxTimeValue_def dateLE_def)
  have h2: "dateLE (VacationPeriod.startDate scenarioD_second)
      (VacationPeriod.endDate scenarioD_second)"
    by (simp add: scenarioD_second_def mkDate_values dateLE_def)
  from inst h1 h2 have "checkForOverlaps utcZone (mkDate utcZone 2025 1 4 0)
        (mkDate utcZone 2025 1 12 0) [scenarioD_second] 0 \<longleftrightarrow>
      (\<exists>p \<in> set [scenarioD_second].
          timeRange (addDays utcZone (mkDate utcZone 2025 1 4 0) (- 0))
            (addDays utcZone (mkDate utcZone 2025 1 12 0) 0) \<inter>
          timeRange (VacationPeriod.startDate p) (VacationPeriod.endDate p) \<noteq> {})"
    by simp
  with weekForm_overlap
  have meet: "timeRange (addDays utcZone (mkDate utcZone 2025 1 4 0) (- 0))
       (addDays utcZone (mkDate utcZone 2025 1 12 0) 0) \<inter>
     timeRange (VacationPeriod.startDate scenarioD_second)
       (VacationPeriod.endDate scenarioD_second) \<noteq> {}" by simp
  from inst weekForm_fitting
  have top: "?s \<in> usedStartDate ` set (periodsFor utcZone [] ?s ?e 5)" by blast
  note inst2 = overlap_check_rejects_intersecting
    [of utcZone "mkDate utcZone 2025 1 4 0" 1 "mkDate utcZone 2025 1 12 0" "[]"
       "[]" ?s ?e 5 weekForm]
  note inst3 = overlap_check_rejects_intersecting
    [of utcZone "mkDate utcZone 2025 1 4 0" 0 "mkDate utcZone 2025 1 12 0" "[]"
       "[]" ?s ?e 5 weekForm]
  have "?s \<in> usedStartDate ` set [scenarioA_period]"
    by (simp add: scenarioA_period_def)
  with inst3 weekForm_findBest
  have kept: "\<exists>es ee. calculateExtraStartDate utcZone [] ?s = Some es \<and>
      calculateExtraEndDate utcZone [] (addDays utcZone ?s (5 - 1)) = Some ee \<and>
      \<not> checkForOverlaps utcZone es ee [] 0" by blast
  have wd: "startsOnWorkday utcZone [] ?s"
    by (simp add: startsOnWorkday_def mkDate_values date_eval)
  have b: "- (2 ^ 53) \<le> minVacationDays weekForm" "maxVacationDays weekForm < 2 ^ 53"
    by (simp_all add: weekForm_def)
  with inst have hc: "handleCalculate utcZone [] weekForm =
     Some (arraySort comparePeriods
       (filter (\<lambda>p. numGt (numSub (calculateTotalDaysOff p) (Some (daysCount p))) (Some 0))
         (concat (map (periodsFor utcZone [] (FormData.startDate weekForm)
            (FormData.endDate weekForm)) [minVacationDays weekForm..maxVacationDays weekForm]))))"
    by blast
  have v: "(1735948800000::int) \<le> 1736640000000 \<and> (0::int) < 1 \<and>
      addDays utcZone (TimeValue 1735948800000) (- 1) = TimeValue 1735862400000 \<and>
      addDays utcZone (TimeValue 1736640000000) 1 = TimeValue 1736726400000"
    by (simp add: addDays_def TimeClip_def zone_eval maxTimeValue_def msPerDay_def)
  from inst2 have "\<forall>a b x y. a \<le> b \<and> 0 < (1::int) \<and>
      addDays utcZone (TimeValue a) (- 1) = TimeValue x \<and>
      addDays utcZone (TimeValue b) 1 = TimeValue y \<longrightarrow>
      dateLE (addDays utcZone (TimeValue a) (- 1)) (addDays utcZone (TimeValue b) 1)"
    by blast
  with v have ord: "dateLE (addDays utcZone (TimeValue 1735948800000) (- 1))
     (addDays utcZone (TimeValue 1736640000000) 1)" by blast
  show ?thesis
  proof (intro conjI)
    show "dateLE (addDays utcZone (mkDate utcZone 2025 1 4 0) (- 0))
       (addDays utcZone (mkDate utcZone 2025 1 12 0) 0)" by (rule h1)
    show "dateLE (VacationPeriod.startDate scenarioD_second)
       (VacationPeriod.endDate scenarioD_second)" by (rule h2)
    show "checkForOverlaps utcZone (mkDate utcZone 2025 1 4 0) (mkDate utcZone 2025 1 12 0)
       [scenarioD_second] 0" by (rule weekForm_overlap)
    show "timeRange (addDays utcZone (mkDate utcZone 2025 1 4 0) (- 0))
         (addDays utcZone (mkDate utcZone 2025 1 12 0) 0) \<inter>
       timeRange (VacationPeriod.startDate scenarioD_second)
         (VacationPeriod.endDate scenarioD_second) \<noteq> {}" by (rule meet)
    show "findBestAvailablePeriods utcZone [] ?s ?e [scenarioD_second] 5 0 =
       Some (Inl NoValidPeriod)" by (rule weekForm_rejected)
    show "findBestAvailablePeriods utcZone [] ?s ?e [] 5 0 = Some (Inr [scenarioA_period])"
      by (rule weekForm_findBest)
    show "\<exists>es ee. calculateExtraStartDate utcZone [] ?s = Some es \<and>
      calculateExtraEndDate utcZone [] (addDays utcZone ?s (5 - 1)) = Some ee \<and>
      \<not> checkForOverlaps utcZone es ee [] 0" by (rule kept)
    show "startsOnWorkday utcZone [] ?s" by (rule wd)
    show "fittingStart utcZone [] ?s ?e 5 ?s" by (rule weekForm_fitting)
    show "?s \<in> usedStartDate ` set (periodsFor utcZone [] ?s ?e 5)" by (rule top)
    show "- (2 ^ 53) \<le> minVacationDays weekForm" by (rule b(1))
    show "maxVacationDays weekForm < 2 ^ 53" by (rule b(2))
    show "handleCalculate utcZone [] weekForm =
     Some (arraySort comparePeriods
       (filter (\<lambda>p. numGt (numSub (calculateTotalDaysOff p) (Some (daysCount p))) (Some 0))
         (concat (map (periodsFor utcZone [] (FormData.startDate weekForm)
            (FormData.endDate weekForm)) [minVacationDays weekForm..maxVacationDays weekForm]))))"
      by (rule hc)
    show "dateLE (addDays utcZone (TimeValue 1735948800000) (- 1))
     (addDays utcZone (TimeValue 1736640000000) 1)" by (rule ord)
  qed
qed

section \<open>The ranking of the final list across a change of the clock\<close>

text \<open>
  Claim C1, evaluated at \<open>easternForm\<close>. The form has no errors and the engine returns
  four periods. The third one runs from Saturday 2025-03-01 to Sunday 2025-03-09, the
  day on which an hour is skipped: it covers 9 calendar days, as the day loop of
  \<open>CalendarView\<close> counts them, and so has 4 extra days, but \<open>calculateTotalDaysOff\<close>
  gives 8 and the engine ranks it with 3. The extra days of the returned list, counted
  in calendar days, are 4, 3, 4 and 1: the list is not in the order of the extra days.
\<close>

theorem ranking_breaks_across_time_change:
  "\<not> hasErrors easternForm \<and>
   handleCalculate easternZone [] easternForm =
     Some [easternFirst, easternSecond, easternThird, easternFourth] \<and>
   map (extraDays easternZone) [easternFirst, easternSecond, easternThird, easternFourth] =
     [Some 4, Some 3, Some 4, Some 1] \<and>
   map (calendarViewExtraDays easternZone)
     [easternFirst, easternSecond, easternThird, easternFourth] = [4, 3, 4, 1] \<and>
   map (\<lambda>p. numSub (calculateTotalDaysOff p) (Some (daysCount p)))
     [easternFirst, easternSecond, easternThird, easternFourth] =
     [Some 4, Some 3, Some 3, Some 1] \<and>
   calendarViewTotalDays easternZone easternThird = 9 \<and>
   calculateTotalDaysOff easternThird = Some 8"
proof (intro conjI)
  show "\<not> hasErrors easternForm"
    by (simp add: hasErrors_def easternForm_def mkDate_eastern dateLE_def)
  show "handleCalculate easternZone [] easternForm =
     Some [easternFirst, easternSecond, easternThird, easternFourth]"
    by (rule eastern_result)
  show "map (extraDays easternZone) [easternFirst, easternSecond, easternThird, easternFourth] =
     [Some 4, Some 3, Some 4, Some 1]"
    by (simp add: extraDays_def easternFirst_def easternSecond_def easternThird_def
        easternFourth_def mkDate_eastern localDay_def zone_eval Day_def msPerDay_def)
  show "map (calendarViewExtraDays easternZone)
     [easternFirst, easternSecond, easternThird, easternFourth] = [4, 3, 4, 1]"
    by (simp add: calendarViewExtraDays_def calendarViewTotalDays_def calendarViewLoop.simps
        easternFirst_def easternSecond_def easternThird_def easternFourth_def mkDate_eastern
        date_eval)
  show "map (\<lambda>p. numSub (calculateTotalDaysOff p) (Some (daysCount p)))
     [easternFirst, easternSecond, easternThird, easternFourth] =
     [Some 4, Some 3, Some 3, Some 1]"
    by (simp add: calculateTotalDaysOff_def easternFirst_def easternSecond_def easternThird_def
        easternFourth_def mkDate_eastern getTime_def numSub_def)
  show "calendarViewTotalDays easternZone easternThird = 9"
    by (simp add: calendarViewTotalDays_def calendarViewLoop.simps easternThird_def
        mkDate_eastern date_eval)
  show "calculateTotalDaysOff easternThird = Some 8"
    by (simp add: calculateTotalDaysOff_def easternThird_def mkDate_eastern getTime_def
        numSub_def)
qed

section \<open>A number of vacation days that leaves the range of dates\<close>

lemma longForm_valid: "\<not> hasErrors longForm"
  by (simp add: hasErrors_def longForm_def mkDate_values dateLE_def)

lemma longForm_dates:
  "FormData.startDate longForm = mkDate utcZone 2025 1 6 0"
  "FormData.endDate longForm = mkDate utcZone 2025 1 10 0"
  by (simp_all add: longForm_def)

text \<open>
  Claim C2, evaluated at \<open>longForm\<close>. The form has no errors. With a hundred million
  vacation days the end of every core window is an Invalid Date, which the test
  \<open>vacationEndDate > maxSearchDate\<close> does not catch. The search returns five periods
  whose core end and extended end are Invalid Dates: the core start is not before or at
  the core end, and the core has no length.
\<close>

theorem search_returns_invalid_core_end:
  "\<not> hasErrors longForm \<and>
   findBestAvailablePeriods utcZone [] (FormData.startDate longForm)
     (FormData.endDate longForm) [] (minVacationDays longForm) 0 = Some (Inr longPeriods) \<and>
   length longPeriods = 5 \<and>
   list_all (\<lambda>p. usedEndDate p = InvalidDate) longPeriods \<and>
   list_all (\<lambda>p. VacationPeriod.endDate p = InvalidDate) longPeriods \<and>
   list_all (\<lambda>p. \<not> dateLE (usedStartDate p) (usedEndDate p)) longPeriods \<and>
   list_all (\<lambda>p. \<not> dateLE (usedEndDate p) (VacationPeriod.endDate p)) longPeriods \<and>
   list_all (\<lambda>p. numSub (getTime (usedEndDate p)) (getTime (usedStartDate p)) = None)
     longPeriods \<and>
   list_all (\<lambda>p. calculateTotalDaysOff p = None) longPeriods"
proof (intro conjI)
  show "\<not> hasErrors longForm" by (rule longForm_valid)
  show "findBestAvailablePeriods utcZone [] (FormData.startDate longForm)
     (FormData.endDate longForm) [] (minVacationDays longForm) 0 = Some (Inr longPeriods)"
    using long_findBest by (simp add: longForm_def)
  show "length longPeriods = 5" by (simp add: longPeriods_def)
  show "list_all (\<lambda>p. usedEndDate p = InvalidDate) longPeriods"
    by (simp add: longPeriods_def longPeriod_def)
  show "list_all (\<lambda>p. VacationPeriod.endDate p = InvalidDate) longPeriods"
    by (simp add: longPeriods_def longPeriod_def)
  show "list_all (\<lambda>p. \<not> dateLE (usedStartDate p) (usedEndDate p)) longPeriods"
    by (simp add: longPeriods_def longPeriod_def dateLE_def mkDate_values)
  show "list_all (\<lambda>p. \<not> dateLE (usedEndDate p) (VacationPeriod.endDate p)) longPeriods"
    by (simp add: longPeriods_def longPeriod_def dateLE_def)
  show "list_all (\<lambda>p. numSub (getTime (usedEndDate p)) (getTime (usedStartDate p)) = None)
     longPeriods"
    by (simp add: longPeriods_def longPeriod_def getTime_def numSub_def)
  show "list_all (\<lambda>p. calculateTotalDaysOff p = None) longPeriods"
    by (simp add: longPeriods_def longPeriod_def calculateTotalDaysOff_def getTime_def
        numSub_def)
qed

text \<open>
  Claim C4, evaluated at two inputs. At \<open>longForm\<close> the scan collects a candidate for
  each of the five workdays of the horizon, though no core window of a hundred million
  days ends in the horizon: the end of each is an Invalid Date, which is not before or
  at the end of the horizon. At \<open>lateStartForm\<close>, whose horizon starts at noon of
  Monday and ends at midnight, the start of Friday, the scan collects nothing for five
  vacation days and the search throws, though Monday is a workday of the horizon and
  the fifth day of its core window is Friday, the last day of the horizon.
\<close>

theorem scan_overcollects_and_misses:
  "scanLoop utcZone [] (mkDate utcZone 2025 1 10 0) [] 100000000 0
     (mkDate utcZone 2025 1 6 0) [] = Some (map (\<lambda>p. (p, None)) longPeriods) \<and>
   map usedStartDate longPeriods =
     [mkDate utcZone 2025 1 6 0, mkDate utcZone 2025 1 7 0, mkDate utcZone 2025 1 8 0,
      mkDate utcZone 2025 1 9 0, mkDate utcZone 2025 1 10 0] \<and>
   list_all (\<lambda>p. addDays utcZone (usedStartDate p) (100000000 - 1) = InvalidDate)
     longPeriods \<and>
   \<not> dateLE InvalidDate (mkDate utcZone 2025 1 10 0) \<and>
   \<not> hasErrors lateStartForm \<and>
   findBestAvailablePeriods utcZone [] (FormData.startDate lateStartForm)
     (FormData.endDate lateStartForm) [] 5 0 = Some (Inl NoValidPeriod) \<and>
   dateLE (FormData.startDate lateStartForm) (FormData.endDate lateStartForm) \<and>
   startsOnWorkday utcZone [] (FormData.startDate lateStartForm) \<and>
   addDays utcZone (FormData.startDate lateStartForm) (5 - 1) = mkDate utcZone 2025 1 10 12 \<and>
   setHoursZero utcZone (mkDate utcZone 2025 1 10 12) = FormData.endDate lateStartForm \<and>
   setHoursZero utcZone (FormData.endDate lateStartForm) = FormData.endDate lateStartForm"
proof (intro conjI)
  show "scanLoop utcZone [] (mkDate utcZone 2025 1 10 0) [] 100000000 0
     (mkDate utcZone 2025 1 6 0) [] = Some (map (\<lambda>p. (p, None)) longPeriods)"
    by (simp add: longPeriods_def longPeriod_def mkDate_values engine_eval date_eval)
  show "map usedStartDate longPeriods =
     [mkDate utcZone 2025 1 6 0, mkDate utcZone 2025 1 7 0, mkDate utcZone 2025 1 8 0,
      mkDate utcZone 2025 1 9 0, mkDate utcZone 2025 1 10 0]"
    by (simp add: longPeriods_def longPeriod_def)
  show "list_all (\<lambda>p. addDays utcZone (usedStartDate p) (100000000 - 1) = InvalidDate)
     longPeriods"
    by (simp add: longPeriods_def longPeriod_def mkDate_values addDays_def TimeClip_def
        zone_eval msPerDay_def maxTimeValue_def)
  show "\<not> dateLE InvalidDate (mkDate utcZone 2025 1 10 0)" by (simp add: dateLE_def)
  show "\<not> hasErrors lateStartForm"
    by (simp add: hasErrors_def lateStartForm_def mkDate_values dateLE_def)
  show "findBestAvailablePeriods utcZone [] (FormData.startDate lateStartForm)
     (FormData.endDate lateStartForm) [] 5 0 = Some (Inl NoValidPeriod)"
    using lateStart_findBest by (simp add: lateStartForm_def)
  show "dateLE (FormData.startDate lateStartForm) (FormData.endDate lateStartForm)"
    by (simp add: lateStartForm_def mkDate_values dateLE_def)
  show "startsOnWorkday utcZone [] (FormData.startDate lateStartForm)"
    by (simp add: startsOnWorkday_def lateStartForm_def mkDate_values date_eval)
  show "addDays utcZone (FormData.startDate lateStartForm) (5 - 1) =
      mkDate utcZone 2025 1 10 12"
    by (simp add: lateStartForm_def mkDate_values addDays_def TimeClip_def zone_eval
        msPerDay_def maxTimeValue_def)
  show "setHoursZero utcZone (mkDate utcZone 2025 1 10 12) = FormData.endDate lateStartForm"
    by (simp add: lateStartForm_def mkDate_values setHoursZero_def TimeClip_def zone_eval
        Day_def msPerDay_def maxTimeValue_def)
  show "setHoursZero utcZone (FormData.endDate lateStartForm) = FormData.endDate lateStartForm"
    by (simp add: lateStartForm_def mkDate_values setHoursZero_def TimeClip_def zone_eval
        Day_def msPerDay_def maxTimeValue_def)
qed

text \<open>
  Claim C5, evaluated at \<open>longForm\<close>. The horizon has five days and the number of
  vacation days is a hundred million, yet the search does not throw: it returns five
  periods, and the sweep adds them to the list of all candidate periods. Only the
  filter of the final list, for which their extra days are not a number, drops them.
\<close>

theorem too_long_day_count_not_signalled:
  "\<not> hasErrors longForm \<and>
   numSub (getTime (FormData.endDate longForm)) (getTime (FormData.startDate longForm)) =
     Some (4 * msPerDay) \<and>
   minVacationDays longForm = 100000000 \<and> maxVacationDays longForm = 100000000 \<and>
   findBestAvailablePeriods utcZone [] (FormData.startDate longForm)
     (FormData.endDate longForm) [] 100000000 0 \<noteq> Some (Inl NoValidPeriod) \<and>
   sweepLoop utcZone [] (FormData.startDate longForm) (FormData.endDate longForm)
     (maxVacationDays longForm) (minVacationDays longForm) [] = Some longPeriods \<and>
   length longPeriods = 5 \<and>
   handleCalculate utcZone [] longForm = Some []"
proof (intro conjI)
  show "\<not> hasErrors longForm" by (rule longForm_valid)
  show "numSub (getTime (FormData.endDate longForm)) (getTime (FormData.startDate longForm)) =
     Some (4 * msPerDay)"
    by (simp add: longForm_def mkDate_values getTime_def numSub_def msPerDay_def)
  show "minVacationDays longForm = 100000000" by (simp add: longForm_def)
  show "maxVacationDays longForm = 100000000" by (simp add: longForm_def)
  show "findBestAvailablePeriods utcZone [] (FormData.startDate longForm)
     (FormData.endDate longForm) [] 100000000 0 \<noteq> Some (Inl NoValidPeriod)"
    unfolding longForm_dates long_findBest by simp
  show "sweepLoop utcZone [] (FormData.startDate longForm) (FormData.endDate longForm)
     (maxVacationDays longForm) (minVacationDays longForm) [] = Some longPeriods"
    using long_sweep by (simp add: longForm_def)
  show "length longPeriods = 5" by (simp add: longPeriods_def)
  show "handleCalculate utcZone [] longForm = Some []" by (rule long_result)
qed

section \<open>The holiday list of a span that starts during the day\<close>

text \<open>
  Claim C6, evaluated at the span \<open>sunsetSpan\<close>, which covers the evening of
  2025-01-01 and 2025-01-02 until 18:00. The holiday list gets one record, dated
  2025-01-01 at 18:00; the next step, 2025-01-02 at 18:00, is not before the end of the
  span. So noon of 2025-01-02, which lies in the span, is not a holiday, while
  \<open>isHoliday\<close>, which compares calendar days, makes the morning of 2025-01-01 one,
  though it lies before the span. The same span from midnight of 2025-01-01 gets a
  record for each of the two days.
\<close>

theorem holiday_list_misses_covered_day:
  "holidays utcZone sunsetProvider scenarioA_form =
     [\<lparr>date = mkDate utcZone 2025 1 1 18, name = ''Feast''\<rparr>] \<and>
   dateLE (h_start sunsetSpan) (mkDate utcZone 2025 1 2 12) \<and>
   dateLT (mkDate utcZone 2025 1 2 12) (h_end sunsetSpan) \<and>
   \<not> isHoliday utcZone (holidays utcZone sunsetProvider scenarioA_form)
       (mkDate utcZone 2025 1 2 12) \<and>
   dateLT (mkDate utcZone 2025 1 1 6) (h_start sunsetSpan) \<and>
   isHoliday utcZone (holidays utcZone sunsetProvider scenarioA_form)
     (mkDate utcZone 2025 1 1 6) \<and>
   setHoursZero utcZone (mkDate utcZone 2025 1 1 18) = mkDate utcZone 2025 1 1 0 \<and>
   spanDays utcZone (sunsetSpan\<lparr>h_start := mkDate utcZone 2025 1 1 0\<rparr>)
     (mkDate utcZone 2025 1 1 0) [] =
     [\<lparr>date = mkDate utcZone 2025 1 1 0, name = ''Feast''\<rparr>,
      \<lparr>date = mkDate utcZone 2025 1 2 0, name = ''Feast''\<rparr>]"
proof (intro conjI)
  show "holidays utcZone sunsetProvider scenarioA_form =
     [\<lparr>date = mkDate utcZone 2025 1 1 18, name = ''Feast''\<rparr>]"
    by (rule sunset_holidays)
  show "dateLE (h_start sunsetSpan) (mkDate utcZone 2025 1 2 12)"
    by (simp add: sunsetSpan_def mkDate_values dateLE_def)
  show "dateLT (mkDate utcZone 2025 1 2 12) (h_end sunsetSpan)"
    by (simp add: sunsetSpan_def mkDate_values dateLT_def)
  show "\<not> isHoliday utcZone (holidays utcZone sunsetProvider scenarioA_form)
       (mkDate utcZone 2025 1 2 12)"
    unfolding sunset_holidays by (simp add: mkDate_values date_eval)
  show "dateLT (mkDate utcZone 2025 1 1 6) (h_start sunsetSpan)"
    by (simp add: sunsetSpan_def mkDate_values dateLT_def)
  show "isHoliday utcZone (holidays utcZone sunsetProvider scenarioA_form)
     (mkDate utcZone 2025 1 1 6)"
    unfolding sunset_holidays by (simp add: mkDate_values date_eval)
  show "setHoursZero utcZone (mkDate utcZone 2025 1 1 18) = mkDate utcZone 2025 1 1 0"
    by (simp add: mkDate_values setHoursZero_def TimeClip_def zone_eval Day_def msPerDay_def
        maxTimeValue_def)
  show "spanDays utcZone (sunsetSpan\<lparr>h_start := mkDate utcZone 2025 1 1 0\<rparr>)
     (mkDate utcZone 2025 1 1 0) [] =
     [\<lparr>date = mkDate utcZone 2025 1 1 0, name = ''Feast''\<rparr>,
      \<lparr>date = mkDate utcZone 2025 1 2 0, name = ''Feast''\<rparr>]"
    by (simp add: sunsetSpan_def mkDate_values spanDays.simps date_eval)
qed

end
